theory Spec2Isabelle
  imports Main "HOL-Library.Word"
begin

unbundle bit_operations_syntax

section \<open>The TrueType parser of gopdf (\<open>TTFParser\<close>), embedded in HOL\<close>

text \<open>
  The development follows \<open>fontdescriptor_obj.go\<close>, package \<open>core\<close>: the type
  \<open>TTFParser\<close>, its table parsers and its accessors. Go's \<open>uint64\<close> values are
  natural numbers (every one of them is produced by \<open>ReadUShort\<close> or \<open>ReadULong\<close>, so it is
  below \<open>2 ^ 32\<close>); the two places where an unsigned subtraction can wrap write the wrap-around
  out. Go's \<open>int64\<close> values are integers. A method of \<open>*TTFParser\<close> that takes the open
  file reads and writes two mutable objects, the parser \<open>me\<close> and the file \<open>fd\<close>; the
  model threads both through every call and keeps them when a call fails, as the Go code
  returns \<open>err\<close> and leaves \<open>me\<close> as far as it was filled.
\<close>

subsection \<open>Errors\<close>

type_synonym byte = "8 word"

text \<open>
  The values of Go's \<open>error\<close> that the parser can return, and the run-time panic of an index
  out of range, which is not a returned error: it unwinds the goroutine.
\<close>

datatype error =
    NotFound string
  | EOF
  | FileOutOfLength
  | InvalidSeek
  | UnrecognizedFormat
  | ERROR_NO_UNICODE_ENCODING_FOUND
  | ERROR_UNEXPECTED_SUBTABLE_FORMAT
  | ERROR_INCORRECT_MAGIC_NUMBER
  | ERROR_POSTSCRIPT_NAME_NOT_FOUND
  | PanicIndexOutOfRange

subsection \<open>The parser object and the open file\<close>

text \<open>
  \<open>TableDirectoryEntry\<close> is declared in another file of the package; the parser uses its
  three fields.
\<close>

record TableDirectoryEntry =
  CheckSum :: nat
  Offset :: nat
  Length :: nat

record TTFParser =
  tables :: "string \<rightharpoonup> TableDirectoryEntry"
  unitsPerEm :: nat
  xMin :: int
  yMin :: int
  xMax :: int
  yMax :: int
  indexToLocFormat :: int
  numberOfHMetrics :: nat
  ascender :: int
  descender :: int
  numGlyphs :: nat
  widths :: "nat list"
  chars :: "int \<rightharpoonup> nat"
  postScriptName :: string
  os2Version :: nat
  Embeddable :: bool
  Bold :: bool
  typoAscender :: int
  typoDescender :: int
  capHeight :: int
  sxHeight :: int
  italicAngle :: int
  underlinePosition :: int
  underlineThickness :: int
  isFixedPitch :: bool
  sTypoLineGap :: int
  usWinAscent :: nat
  usWinDescent :: nat
  IsShortIndex :: bool
  LocaTable :: "nat list"
  SegCount :: nat
  StartCount :: "nat list"
  EndCount :: "nat list"
  IdRangeOffset :: "nat list"
  IdDelta :: "nat list"
  GlyphIdArray :: "nat list"
  symbol :: bool
  cahceFontData :: "byte list"

text \<open>The zero value \<open>TTFParser{}\<close>: a parser before its first \<open>Parse\<close>.\<close>

definition new_TTFParser :: TTFParser where
  "new_TTFParser =
     \<lparr>tables = Map.empty, unitsPerEm = 0, xMin = 0, yMin = 0, xMax = 0, yMax = 0,
      indexToLocFormat = 0, numberOfHMetrics = 0, ascender = 0, descender = 0,
      numGlyphs = 0, widths = [], chars = Map.empty, postScriptName = [],
      os2Version = 0, Embeddable = False, Bold = False, typoAscender = 0,
      typoDescender = 0, capHeight = 0, sxHeight = 0, italicAngle = 0,
      underlinePosition = 0, underlineThickness = 0, isFixedPitch = False,
      sTypoLineGap = 0, usWinAscent = 0, usWinDescent = 0, IsShortIndex = False,
      LocaTable = [], SegCount = 0, StartCount = [], EndCount = [], IdRangeOffset = [],
      IdDelta = [], GlyphIdArray = [], symbol = False, cahceFontData = []\<rparr>"

text \<open>
  An \<open>*os.File\<close> on a regular file opened for reading: its bytes and the cursor. The cursor
  may stand beyond the end (seeking there is no error; the next read is).
\<close>

record os_file =
  content :: "byte list"
  pos :: nat

record world =
  me_of :: TTFParser
  fd_of :: os_file

type_synonym 'a action = "world \<Rightarrow> (error + 'a) \<times> world"

subsection \<open>Sequencing: \<open>x, err := f(); if err != nil { return err }\<close>\<close>

definition ret :: "'a \<Rightarrow> 'a action" where
  "ret v w = (Inr v, w)"

definition fail :: "error \<Rightarrow> 'a action" where
  "fail e w = (Inl e, w)"

definition seq :: "'a action \<Rightarrow> ('a \<Rightarrow> 'b action) \<Rightarrow> 'b action" where
  "seq m k w = (case m w of (Inl e, w') \<Rightarrow> (Inl e, w') | (Inr v, w') \<Rightarrow> k v w')"

lemma seq_cong [fundef_cong]:
  assumes "m w = m' w'"
    and "\<And>v w1. m' w' = (Inr v, w1) \<Longrightarrow> k v w1 = k' v w1"
  shows "seq m k w = seq m' k' w'"
  using assms by (auto simp: seq_def split: prod.splits sum.splits)

text \<open>A call whose returned error the code drops: \<open>me.Seek(fd, "cmap")\<close> as a statement.\<close>

definition ignoring_err :: "unit action \<Rightarrow> unit action" where
  "ignoring_err m w = (Inr (), snd (m w))"

text \<open>A statement that reads fields of \<open>me\<close>.\<close>

definition with_me :: "(TTFParser \<Rightarrow> 'a action) \<Rightarrow> 'a action" where
  "with_me g w = g (me_of w) w"

text \<open>
  \<open>me.field, err = me.ReadUShort(fd)\<close> and its like: the field takes the first result also
  when the read fails, and a failed read returns 0 with its error.
\<close>

definition read_into :: "('a :: zero) action \<Rightarrow> ('a \<Rightarrow> TTFParser \<Rightarrow> TTFParser) \<Rightarrow> unit action" where
  "read_into rd store w =
     (case rd w of
        (Inl err, w') \<Rightarrow> (Inl err, w'\<lparr>me_of := store 0 (me_of w')\<rparr>)
      | (Inr v, w') \<Rightarrow> (Inr (), w'\<lparr>me_of := store v (me_of w')\<rparr>))"

text \<open>An assignment to a field of \<open>me\<close>.\<close>

definition assign :: "(TTFParser \<Rightarrow> TTFParser) \<Rightarrow> unit action" where
  "assign f w = (Inr (), w\<lparr>me_of := f (me_of w)\<rparr>)"

subsection \<open>The cursor: \<open>Read\<close>, \<open>Skip\<close>, \<open>Seek\<close>, \<open>FTell\<close> and the integer readers\<close>

text \<open>
  \<open>fd.Read(buff)\<close> on a regular file fills \<open>buff\<close> with the bytes from the cursor on, as
  many as there are, and advances the cursor by their number; with a non-empty \<open>buff\<close> and no
  byte left it returns \<open>io.EOF\<close>, with an empty \<open>buff\<close> it returns 0 bytes and no error.
  \<open>Read\<close> turns a short count into the error "file out of length".
\<close>

definition Read :: "nat \<Rightarrow> (byte list) action" where
  "Read n w =
     (let fd = fd_of w; buff = take n (drop (pos fd) (content fd)) in
      if n = 0 then (Inr [], w)
      else if buff = [] then (Inl EOF, w)
      else if length buff \<noteq> n
        then (Inl FileOutOfLength, w\<lparr>fd_of := fd\<lparr>pos := pos fd + length buff\<rparr>\<rparr>)
        else (Inr buff, w\<lparr>fd_of := fd\<lparr>pos := pos fd + n\<rparr>\<rparr>))"

text \<open>
  \<open>fd.Seek(length, 1)\<close> with the non-negative constants the parser passes: it cannot fail.
\<close>

definition Skip :: "nat \<Rightarrow> unit action" where
  "Skip n w = (Inr (), w\<lparr>fd_of := (fd_of w)\<lparr>pos := pos (fd_of w) + n\<rparr>\<rparr>)"

text \<open>
  \<open>fd.Seek(int64(val), 0)\<close> for a \<open>uint64\<close> \<open>val\<close>: from \<open>2 ^ 63\<close> on the conversion is
  negative and the seek is refused.
\<close>

definition SeekAbs :: "nat \<Rightarrow> unit action" where
  "SeekAbs val w =
     (if val < 2 ^ 63 then (Inr (), w\<lparr>fd_of := (fd_of w)\<lparr>pos := val\<rparr>\<rparr>)
      else (Inl InvalidSeek, w))"

definition Seek :: "string \<Rightarrow> unit action" where
  "Seek tag w =
     (case tables (me_of w) tag of
        None \<Rightarrow> (Inl (NotFound tag), w)
      | Some table \<Rightarrow> SeekAbs (Offset table) w)"

definition FTell :: "nat action" where
  "FTell w = (Inr (pos (fd_of w)), w)"

text \<open>\<open>big.NewInt(0).SetBytes(buff).Uint64()\<close>: the bytes as a big-endian number.\<close>

definition be_nat :: "byte list \<Rightarrow> nat" where
  "be_nat buff = foldl (\<lambda>acc b. acc * 256 + unat b) 0 buff"

definition ReadUShort :: "nat action" where
  "ReadUShort = seq (Read 2) (\<lambda>buff. ret (be_nat buff))"

definition ReadShort :: "int action" where
  "ReadShort =
     seq (Read 2) (\<lambda>buff.
       let u = be_nat buff in
       ret (if u \<ge> 0x8000 then int u - 65536 else int u))"

definition ReadULong :: "nat action" where
  "ReadULong = seq (Read 4) (\<lambda>buff. ret (be_nat buff))"

definition BytesToString :: "byte list \<Rightarrow> string" where
  "BytesToString b = map (\<lambda>x. char_of (unat x)) b"

subsection \<open>\<open>head\<close>, \<open>hhea\<close>, \<open>maxp\<close>\<close>

definition ParseHead :: "unit action" where
  "ParseHead =
     seq (Seek ''head'') (\<lambda>_.
     seq (Skip (3 * 4)) (\<lambda>_.
     seq ReadULong (\<lambda>magicNumber.
     if magicNumber \<noteq> 0x5F0F3CF5 then fail ERROR_INCORRECT_MAGIC_NUMBER else
     seq (Skip 2) (\<lambda>_.
     seq (read_into ReadUShort (\<lambda>v me. me\<lparr>unitsPerEm := v\<rparr>)) (\<lambda>_.
     seq (Skip (2 * 8)) (\<lambda>_.
     seq (read_into ReadShort (\<lambda>v me. me\<lparr>xMin := v\<rparr>)) (\<lambda>_.
     seq (read_into ReadShort (\<lambda>v me. me\<lparr>yMin := v\<rparr>)) (\<lambda>_.
     seq (read_into ReadShort (\<lambda>v me. me\<lparr>xMax := v\<rparr>)) (\<lambda>_.
     seq (read_into ReadShort (\<lambda>v me. me\<lparr>yMax := v\<rparr>)) (\<lambda>_.
     seq (Skip (2 * 3)) (\<lambda>_.
     read_into ReadShort (\<lambda>v me. me\<lparr>indexToLocFormat := v\<rparr>))))))))))))"

definition ParseHhea :: "unit action" where
  "ParseHhea =
     seq (Seek ''hhea'') (\<lambda>_.
     seq (Skip 4) (\<lambda>_.
     seq (read_into ReadShort (\<lambda>v me. me\<lparr>ascender := v\<rparr>)) (\<lambda>_.
     seq (read_into ReadShort (\<lambda>v me. me\<lparr>descender := v\<rparr>)) (\<lambda>_.
     seq (Skip (13 * 2)) (\<lambda>_.
     read_into ReadUShort (\<lambda>v me. me\<lparr>numberOfHMetrics := v\<rparr>))))))"

definition ParseMaxp :: "unit action" where
  "ParseMaxp =
     seq (Seek ''maxp'') (\<lambda>_.
     seq (Skip 4) (\<lambda>_.
     read_into ReadUShort (\<lambda>v me. me\<lparr>numGlyphs := v\<rparr>)))"

subsection \<open>\<open>hmtx\<close>\<close>

lemma Read_me_of: "Read n w = (r, w') \<Longrightarrow> me_of w' = me_of w"
  by (auto simp: Read_def Let_def split: if_splits)

lemma ReadUShort_me_of: "ReadUShort w = (r, w') \<Longrightarrow> me_of w' = me_of w"
  by (auto simp: ReadUShort_def seq_def ret_def split: prod.splits sum.splits dest: Read_me_of)

lemma Skip_me_of: "Skip n w = (r, w') \<Longrightarrow> me_of w' = me_of w"
  by (auto simp: Skip_def)

text \<open>
  The loop \<open>for i < me.numberOfHMetrics\<close> of \<open>ParseHmtx\<close>: it appends to \<open>me.widths\<close>
  as it stands (the method never empties it).
\<close>

function hmtx_loop :: "nat \<Rightarrow> unit action" where
  "hmtx_loop i w =
     (if i < numberOfHMetrics (me_of w) then
        seq ReadUShort (\<lambda>advanceWidth.
        seq (Skip 2) (\<lambda>_.
        seq (assign (\<lambda>me. me\<lparr>widths := widths me @ [advanceWidth]\<rparr>)) (\<lambda>_ w'.
        hmtx_loop (i + 1) w'))) w
      else (Inr (), w))"
  by pat_completeness auto
termination
  by (relation "measure (\<lambda>(i, w). numberOfHMetrics (me_of w) - i)")
     (auto simp: assign_def dest!: ReadUShort_me_of Skip_me_of)

function ArrayPadUint_loop :: "nat list \<Rightarrow> nat \<Rightarrow> nat \<Rightarrow> nat \<Rightarrow> nat list \<Rightarrow> nat list" where
  "ArrayPadUint_loop arr sz val i result =
     (if i < sz then
        (if i < length arr
         then ArrayPadUint_loop arr sz val (i + 1) (result @ [arr ! i])
         else ArrayPadUint_loop arr sz val (i + 1) (result @ [val]))
      else result)"
  by pat_completeness auto
termination
  by (relation "measure (\<lambda>(arr, sz, val, i, result). sz - i)") auto

text \<open>\<open>ArrayPadUint\<close> returns its slice and always a nil error.\<close>

definition ArrayPadUint :: "nat list \<Rightarrow> nat \<Rightarrow> nat \<Rightarrow> (nat list) action" where
  "ArrayPadUint arr sz val = ret (ArrayPadUint_loop arr sz val 0 [])"

text \<open>
  \<open>me.widths[me.numberOfHMetrics-1]\<close>: the subtraction is on \<open>uint64\<close>, so at 0 the index is
  \<open>2 ^ 64 - 1\<close>; an index that is not below the length panics.
\<close>

definition ParseHmtx :: "unit action" where
  "ParseHmtx =
     seq (ignoring_err (Seek ''hmtx'')) (\<lambda>_.
     seq (hmtx_loop 0) (\<lambda>_.
     with_me (\<lambda>me.
       if numberOfHMetrics me < numGlyphs me then
         (let idx = (numberOfHMetrics me + 2 ^ 64 - 1) mod 2 ^ 64 in
          if idx < length (widths me) then
            seq (ArrayPadUint (widths me) (numGlyphs me) (widths me ! idx)) (\<lambda>padded.
            assign (\<lambda>me. me\<lparr>widths := padded\<rparr>))
          else fail PanicIndexOutOfRange)
       else ret ())))"

subsection \<open>\<open>cmap\<close>\<close>

text \<open>
  The scan of the encoding records, \<open>for i := 0; i < int(numTables); i++\<close>, with the local
  \<open>offset31\<close>. The test \<open>encodingID == 0\<close> stands inside the branch of
  \<open>platformID == 3 && encodingID == 1\<close>, as in the source.
\<close>

function cmap_records :: "nat \<Rightarrow> nat \<Rightarrow> nat \<Rightarrow> nat action" where
  "cmap_records i numTables offset31 w =
     (if i < numTables then
        seq ReadUShort (\<lambda>platformID.
        seq ReadUShort (\<lambda>encodingID.
        seq ReadULong (\<lambda>offset.
        seq (assign (\<lambda>me. me\<lparr>symbol := False\<rparr>)) (\<lambda>_.
        if platformID = 3 \<and> encodingID = 1 then
          seq (if encodingID = 0 then assign (\<lambda>me. me\<lparr>symbol := True\<rparr>) else ret ()) (\<lambda>_ w'.
          cmap_records (i + 1) numTables offset w')
        else (\<lambda>w'. cmap_records (i + 1) numTables offset31 w'))))) w
      else (Inr offset31, w))"
  by pat_completeness auto
termination
  by (relation "measure (\<lambda>(i, numTables, offset31, w). numTables - i)") auto

text \<open>
  The five loops \<open>for i := 0; i < int(n); i++ { tmp, err := me.ReadUShort(fd); ...;
  xs = append(xs, tmp) }\<close> that fill a local slice.
\<close>

function read_ushorts :: "nat \<Rightarrow> nat \<Rightarrow> nat list \<Rightarrow> (nat list) action" where
  "read_ushorts i n xs w =
     (if i < n then
        seq ReadUShort (\<lambda>tmp w'. read_ushorts (i + 1) n (xs @ [tmp]) w') w
      else (Inr xs, w))"
  by pat_completeness auto
termination
  by (relation "measure (\<lambda>(i, n, xs, w). n - i)") auto

text \<open>An indexing expression \<open>xs[i]\<close>: a run-time panic when \<open>i\<close> is out of range.\<close>

definition index :: "nat list \<Rightarrow> nat \<Rightarrow> nat action" where
  "index xs i = (if i < length xs then ret (xs ! i) else fail PanicIndexOutOfRange)"

text \<open>
  The glyph index of codepoint \<open>c\<close> in a segment with delta \<open>d\<close> and range offset
  \<open>ro\<close> (the body of the inner loop up to the store).
\<close>

definition glyph_index :: "nat \<Rightarrow> nat \<Rightarrow> nat \<Rightarrow> nat action" where
  "glyph_index c d ro =
     seq (if ro > 0
          then seq ReadUShort (\<lambda>gid. ret (if gid > 0 then gid + d else gid))
          else ret (c + d)) (\<lambda>gid.
     ret (if gid \<ge> 65536 then gid - 65536 else gid))"

text \<open>
  The inner loop \<open>for c := c1; c <= c2; c++\<close>. \<open>c2\<close> is a value of \<open>ReadUShort\<close>, at
  most 65535, so \<open>c++\<close> never wraps.
\<close>

function cmap_codepoints :: "nat \<Rightarrow> nat \<Rightarrow> nat \<Rightarrow> nat \<Rightarrow> unit action" where
  "cmap_codepoints c c2 d ro w =
     (if c \<le> c2 then
        (if c = 0xFFFF then (Inr (), w)
         else
           seq (glyph_index c d ro) (\<lambda>gid.
           seq (if gid > 0 then assign (\<lambda>me. me\<lparr>chars := (chars me)(int c \<mapsto> gid)\<rparr>)
                else ret ()) (\<lambda>_ w'.
           cmap_codepoints (c + 1) c2 d ro w')) w)
      else (Inr (), w))"
  by pat_completeness auto
termination
  by (relation "measure (\<lambda>(c, c2, d, ro, w). c2 + 1 - c)") auto

function cmap_segments ::
  "nat \<Rightarrow> nat \<Rightarrow> nat list \<Rightarrow> nat list \<Rightarrow> nat list \<Rightarrow> nat list \<Rightarrow> nat \<Rightarrow> unit action" where
  "cmap_segments i segCount startCount endCount idDelta idRangeOffset offset w =
     (if i < segCount then
        seq (index startCount i) (\<lambda>c1.
        seq (index endCount i) (\<lambda>c2.
        seq (index idDelta i) (\<lambda>d.
        seq (index idRangeOffset i) (\<lambda>ro.
        seq (if ro > 0 then SeekAbs (offset + 2 * i + ro) else ret ()) (\<lambda>_.
        seq (cmap_codepoints c1 c2 d ro) (\<lambda>_ w'.
        cmap_segments (i + 1) segCount startCount endCount idDelta idRangeOffset offset w')))))) w
      else (Inr (), w))"
  by pat_completeness auto
termination
  by (relation "measure (\<lambda>(i, segCount, rest). segCount - i)") auto

text \<open>\<open>me.tables["cmap"].Offset\<close>: a missing key reads as the zero entry.\<close>

definition table_Offset :: "TTFParser \<Rightarrow> string \<Rightarrow> nat" where
  "table_Offset me tag = (case tables me tag of None \<Rightarrow> 0 | Some table \<Rightarrow> Offset table)"

text \<open>
  \<open>glyphCount := (length - (16 + 8*segCount)) / 2\<close> is computed on \<open>uint64\<close>: the
  subtraction wraps when \<open>length\<close> is the smaller. The errors of \<open>me.Seek(fd, "cmap")\<close> and
  of the first \<open>me.Skip\<close> are dropped.
\<close>

definition ParseCmap :: "unit action" where
  "ParseCmap =
     seq (ignoring_err (Seek ''cmap'')) (\<lambda>_.
     seq (ignoring_err (Skip 2)) (\<lambda>_.
     seq ReadUShort (\<lambda>numTables.
     seq (cmap_records 0 numTables 0) (\<lambda>offset31.
     if offset31 = 0 then fail ERROR_NO_UNICODE_ENCODING_FOUND else
     seq (with_me (\<lambda>me. SeekAbs (table_Offset me ''cmap'' + offset31))) (\<lambda>_.
     seq ReadUShort (\<lambda>format.
     if format \<noteq> 4 then fail ERROR_UNEXPECTED_SUBTABLE_FORMAT else
     seq ReadUShort (\<lambda>length.
     seq (Skip 2) (\<lambda>_.
     seq ReadUShort (\<lambda>segCountX2.
     let segCount = segCountX2 div 2 in
     seq (assign (\<lambda>me. me\<lparr>SegCount := segCount\<rparr>)) (\<lambda>_.
     seq (Skip (3 * 2)) (\<lambda>_.
     let glyphCount = ((length + 2 ^ 64 - (16 + 8 * segCount)) mod 2 ^ 64) div 2 in
     seq (read_ushorts 0 segCount []) (\<lambda>endCount.
     seq (assign (\<lambda>me. me\<lparr>EndCount := endCount\<rparr>)) (\<lambda>_.
     seq (Skip 2) (\<lambda>_.
     seq (read_ushorts 0 segCount []) (\<lambda>startCount.
     seq (assign (\<lambda>me. me\<lparr>StartCount := startCount\<rparr>)) (\<lambda>_.
     seq (read_ushorts 0 segCount []) (\<lambda>idDelta.
     seq (assign (\<lambda>me. me\<lparr>IdDelta := idDelta\<rparr>)) (\<lambda>_.
     seq FTell (\<lambda>offset.
     seq (read_ushorts 0 segCount []) (\<lambda>idRangeOffset.
     seq (assign (\<lambda>me. me\<lparr>IdRangeOffset := idRangeOffset\<rparr>)) (\<lambda>_.
     seq (read_ushorts 0 glyphCount []) (\<lambda>glyphIdArray.
     seq (assign (\<lambda>me. me\<lparr>GlyphIdArray := glyphIdArray\<rparr>)) (\<lambda>_.
     seq (assign (\<lambda>me. me\<lparr>chars := Map.empty\<rparr>)) (\<lambda>_.
     cmap_segments 0 segCount startCount endCount idDelta idRangeOffset offset
     ))))))))))))))))))))))))"

subsection \<open>\<open>name\<close>\<close>

text \<open>
  \<open>strconv.Itoa\<close>: the decimal digits of an integer.
\<close>

function digits :: "nat \<Rightarrow> string" where
  "digits n = (if n < 10 then [char_of (48 + n)] else digits (n div 10) @ [char_of (48 + n mod 10)])"
  by pat_completeness auto
termination
  by (relation "measure id") auto

definition Itoa :: "int \<Rightarrow> string" where
  "Itoa i = (if i < 0 then CHR ''-'' # digits (nat (- i)) else digits (nat i))"

text \<open>
  \<open>strings.Replace(s, old, new, -1)\<close> for a non-empty \<open>old\<close>: every non-overlapping
  occurrence of \<open>old\<close>, from the left, becomes \<open>new\<close>.
\<close>

function strings_Replace :: "string \<Rightarrow> string \<Rightarrow> string \<Rightarrow> string" where
  "strings_Replace s old new =
     (if s = [] \<or> old = [] then s
      else if take (length old) s = old
        then new @ strings_Replace (drop (length old) s) old new
        else hd s # strings_Replace (tl s) old new)"
  by pat_completeness auto
termination
  by (relation "measure (\<lambda>(s, old, new). length s)") auto

text \<open>
  \<open>PregReplace\<close> compiles its pattern with Go's \<open>regexp\<close> package and calls
  \<open>ReplaceAllString\<close>. The pattern of \<open>ParseName\<close> is the Go string
  \<^verbatim>\<open>"|[ \\[\\](){}<>/%]|"\<close>: the bars that delimit the expression in the PHP original are,
  in Go's syntax, alternation, so the expression is \<open>empty | class | empty\<close>. Go matches
  leftmost-first: of the alternatives that match at the leftmost position the first one in
  the pattern wins (\<open>x|y\<close>: "prefer x"). The model has the three constructors this pattern
  needs. Strings are byte sequences; the class holds ASCII characters only.
\<close>

datatype regexp = EmptyMatch | CharClass "char list" | Alternate regexp regexp

text \<open>The length of the match that the engine prefers for \<open>re\<close> at the start of \<open>s\<close>.\<close>

fun match_here :: "regexp \<Rightarrow> string \<Rightarrow> nat option" where
  "match_here EmptyMatch s = Some 0"
| "match_here (CharClass cs) s =
     (case s of [] \<Rightarrow> None | c # _ \<Rightarrow> if c \<in> set cs then Some 1 else None)"
| "match_here (Alternate r1 r2) s =
     (case match_here r1 s of Some n \<Rightarrow> Some n | None \<Rightarrow> match_here r2 s)"

text \<open>The leftmost match at or after \<open>searchPos\<close>, as its start and end.\<close>

function doExecute :: "regexp \<Rightarrow> string \<Rightarrow> nat \<Rightarrow> (nat \<times> nat) option" where
  "doExecute re src searchPos =
     (if searchPos > length src then None
      else case match_here re (drop searchPos src) of
             Some n \<Rightarrow> Some (searchPos, searchPos + n)
           | None \<Rightarrow> doExecute re src (searchPos + 1))"
  by pat_completeness auto
termination
  by (relation "measure (\<lambda>(re, src, searchPos). length src + 1 - searchPos)") auto

lemma doExecute_start: "doExecute re src p = Some (a0, a1) \<Longrightarrow> p \<le> a0 \<and> a0 \<le> a1"
proof (induction re src p rule: doExecute.induct)
  case (1 re src searchPos)
  then show ?case
    by (cases "match_here re (drop searchPos src)") (auto split: if_splits)
qed

text \<open>
  The loop of \<open>regexp.replaceAll\<close> with a literal replacement: the text before a match is
  copied, the replacement is written unless the match is empty and touches the match
  before it, and the search goes on behind the match, at least one character further
  (the model steps by one byte where Go steps by one rune).
\<close>

function replaceAll :: "regexp \<Rightarrow> string \<Rightarrow> string \<Rightarrow> nat \<Rightarrow> nat \<Rightarrow> string \<Rightarrow> string" where
  "replaceAll re src repl lastMatchEnd searchPos buf =
     (if searchPos \<le> length src then
        (case doExecute re src searchPos of
           None \<Rightarrow> buf @ drop lastMatchEnd src
         | Some (a0, a1) \<Rightarrow>
             (let buf1 = buf @ take (a0 - lastMatchEnd) (drop lastMatchEnd src);
                  buf2 = (if a1 > lastMatchEnd \<or> a0 = 0 then buf1 @ repl else buf1);
                  width = (if searchPos < length src then 1 else 0);
                  searchPos' = (if searchPos + width > a1 then searchPos + width
                                else if searchPos + 1 > a1 then searchPos + 1
                                else a1)
              in replaceAll re src repl a1 searchPos' buf2))
      else buf @ drop lastMatchEnd src)"
  by pat_completeness auto
termination
  by (relation "measure (\<lambda>(re, src, repl, lastMatchEnd, searchPos, buf). length src + 1 - searchPos)")
     (auto simp del: doExecute.simps dest!: doExecute_start)

definition ReplaceAllString :: "regexp \<Rightarrow> string \<Rightarrow> string \<Rightarrow> string" where
  "ReplaceAllString re src repl = replaceAll re src repl 0 0 []"

definition name_pattern :: regexp where
  "name_pattern =
     Alternate EmptyMatch (Alternate (CharClass '' [](){}<>/%'') EmptyMatch)"

text \<open>\<open>PregReplace\<close> at its one call: the pattern compiles, so the error is nil.\<close>

definition PregReplace :: "regexp \<Rightarrow> string \<Rightarrow> string \<Rightarrow> string action" where
  "PregReplace pattern replacement subject = ret (ReplaceAllString pattern subject replacement)"

text \<open>
  The record loop of \<open>ParseName\<close>; the record with \<open>nameID == 6\<close> ends it (\<open>break\<close>).
\<close>

function name_records :: "nat \<Rightarrow> nat \<Rightarrow> nat \<Rightarrow> nat \<Rightarrow> unit action" where
  "name_records i count tableOffset stringOffset w =
     (if i < count then
        seq (Skip (3 * 2)) (\<lambda>_.
        seq ReadUShort (\<lambda>nameID.
        seq ReadUShort (\<lambda>length.
        seq ReadUShort (\<lambda>offset.
        if nameID = 6 then
          seq (SeekAbs (tableOffset + stringOffset + offset)) (\<lambda>_.
          seq (Read length) (\<lambda>stmp.
          let tmpStmp = filter (\<lambda>v. v \<noteq> 0) stmp;
              s = BytesToString tmpStmp;
              s = strings_Replace s (Itoa 0) [] in
          seq (PregReplace name_pattern [] s) (\<lambda>s.
          assign (\<lambda>me. me\<lparr>postScriptName := s\<rparr>))))
        else (\<lambda>w'. name_records (i + 1) count tableOffset stringOffset w'))))) w
      else (Inr (), w))"
  by pat_completeness auto
termination
  by (relation "measure (\<lambda>(i, count, tableOffset, stringOffset, w). count - i)") auto

definition ParseName :: "unit action" where
  "ParseName =
     seq (Seek ''name'') (\<lambda>_.
     seq FTell (\<lambda>tableOffset.
     seq (assign (\<lambda>me. me\<lparr>postScriptName := []\<rparr>)) (\<lambda>_.
     seq (Skip 2) (\<lambda>_.
     seq ReadUShort (\<lambda>count.
     seq ReadUShort (\<lambda>stringOffset.
     seq (name_records 0 count tableOffset stringOffset) (\<lambda>_.
     with_me (\<lambda>me.
       if postScriptName me = [] then fail ERROR_POSTSCRIPT_NAME_NOT_FOUND else ret ()))))))))"

subsection \<open>\<open>OS/2\<close>, \<open>post\<close>, \<open>loca\<close>\<close>

definition ParseOS2 :: "unit action" where
  "ParseOS2 =
     seq (Seek ''OS/2'') (\<lambda>_.
     seq ReadUShort (\<lambda>version.
     seq (assign (\<lambda>me. me\<lparr>os2Version := version\<rparr>)) (\<lambda>_.
     seq (Skip (3 * 2)) (\<lambda>_.
     seq ReadUShort (\<lambda>fsType.
     seq (assign (\<lambda>me. me\<lparr>Embeddable := (fsType \<noteq> 2 \<and> fsType AND 0x200 = 0)\<rparr>)) (\<lambda>_.
     seq (Skip ((11 * 2) + 10 + (4 * 4) + 4)) (\<lambda>_.
     seq ReadUShort (\<lambda>fsSelection.
     seq (assign (\<lambda>me. me\<lparr>Bold := (fsSelection AND 32 \<noteq> 0)\<rparr>)) (\<lambda>_.
     seq (Skip (2 * 2)) (\<lambda>_.
     seq (read_into ReadShort (\<lambda>v me. me\<lparr>typoAscender := v\<rparr>)) (\<lambda>_.
     seq (read_into ReadShort (\<lambda>v me. me\<lparr>typoDescender := v\<rparr>)) (\<lambda>_.
     seq (read_into ReadShort (\<lambda>v me. me\<lparr>sTypoLineGap := v\<rparr>)) (\<lambda>_.
     seq (read_into ReadUShort (\<lambda>v me. me\<lparr>usWinAscent := v\<rparr>)) (\<lambda>_.
     seq (read_into ReadUShort (\<lambda>v me. me\<lparr>usWinDescent := v\<rparr>)) (\<lambda>_.
     if version \<ge> 2 then
       seq (Skip (2 * 4)) (\<lambda>_.
       seq (read_into ReadShort (\<lambda>v me. me\<lparr>sxHeight := v\<rparr>)) (\<lambda>_.
       read_into ReadShort (\<lambda>v me. me\<lparr>capHeight := v\<rparr>)))
     else assign (\<lambda>me. me\<lparr>capHeight := ascender me\<rparr>)
     )))))))))))))))"

definition ParsePost :: "unit action" where
  "ParsePost =
     seq (Seek ''post'') (\<lambda>_.
     seq (Skip 4) (\<lambda>_.
     seq (read_into ReadShort (\<lambda>v me. me\<lparr>italicAngle := v\<rparr>)) (\<lambda>_.
     seq (Skip 2) (\<lambda>_.
     seq (read_into ReadShort (\<lambda>v me. me\<lparr>underlinePosition := v\<rparr>)) (\<lambda>_.
     seq (read_into ReadShort (\<lambda>v me. me\<lparr>underlineThickness := v\<rparr>)) (\<lambda>_.
     seq ReadULong (\<lambda>isFixedPitch'.
     assign (\<lambda>me. me\<lparr>isFixedPitch := (isFixedPitch' \<noteq> 0)\<rparr>))))))))"

text \<open>The two loops of \<open>ParseLoca\<close> over the local \<open>locaTable\<close>.\<close>

function loca_short :: "nat \<Rightarrow> nat \<Rightarrow> nat list \<Rightarrow> (nat list) action" where
  "loca_short i entries locaTable w =
     (if i < entries then
        seq ReadUShort (\<lambda>item w'. loca_short (i + 1) entries (locaTable @ [item * 2]) w') w
      else (Inr locaTable, w))"
  by pat_completeness auto
termination
  by (relation "measure (\<lambda>(i, entries, locaTable, w). entries - i)") auto

function loca_long :: "nat \<Rightarrow> nat \<Rightarrow> nat list \<Rightarrow> (nat list) action" where
  "loca_long i entries locaTable w =
     (if i < entries then
        seq ReadULong (\<lambda>item w'. loca_long (i + 1) entries (locaTable @ [item]) w') w
      else (Inr locaTable, w))"
  by pat_completeness auto
termination
  by (relation "measure (\<lambda>(i, entries, locaTable, w). entries - i)") auto

definition table_Length :: "TTFParser \<Rightarrow> string \<Rightarrow> nat" where
  "table_Length me tag = (case tables me tag of None \<Rightarrow> 0 | Some table \<Rightarrow> Length table)"

definition ParseLoca :: "unit action" where
  "ParseLoca =
     seq (assign (\<lambda>me. me\<lparr>IsShortIndex := False\<rparr>)) (\<lambda>_.
     seq (assign (\<lambda>me. if indexToLocFormat me = 0 then me\<lparr>IsShortIndex := True\<rparr> else me)) (\<lambda>_.
     seq (Seek ''loca'') (\<lambda>_.
     seq (with_me (\<lambda>me.
            if IsShortIndex me
            then loca_short 0 (table_Length me ''loca'' div 2) []
            else loca_long 0 (table_Length me ''loca'' div 4) [])) (\<lambda>locaTable.
     assign (\<lambda>me. me\<lparr>LocaTable := locaTable\<rparr>)))))"

subsection \<open>\<open>Parse\<close>\<close>

text \<open>
  \<open>CompareBytes\<close> at its one call, where both slices are non-nil: equal length and equal
  bytes.
\<close>

function CompareBytes_loop :: "nat \<Rightarrow> byte list \<Rightarrow> byte list \<Rightarrow> bool" where
  "CompareBytes_loop i a b =
     (if i < length a then
        (if a ! i \<noteq> b ! i then False else CompareBytes_loop (i + 1) a b)
      else True)"
  by pat_completeness auto
termination
  by (relation "measure (\<lambda>(i, a, b). length a - i)") auto

definition CompareBytes :: "byte list \<Rightarrow> byte list \<Rightarrow> bool" where
  "CompareBytes a b = (if length a \<noteq> length b then False else CompareBytes_loop 0 a b)"

function directory_loop :: "nat \<Rightarrow> nat \<Rightarrow> unit action" where
  "directory_loop i numTables w =
     (if i < numTables then
        seq (Read 4) (\<lambda>tag.
        seq ReadULong (\<lambda>checksum.
        seq ReadULong (\<lambda>offset.
        seq ReadULong (\<lambda>length.
        seq (assign (\<lambda>me. me\<lparr>tables := (tables me)(BytesToString tag \<mapsto>
               \<lparr>CheckSum = checksum, Offset = offset, Length = length\<rparr>)\<rparr>)) (\<lambda>_ w'.
        directory_loop (i + 1) numTables w'))))) w
      else (Inr (), w))"
  by pat_completeness auto
termination
  by (relation "measure (\<lambda>(i, numTables, w). numTables - i)") auto

text \<open>
  \<open>readFontData\<close> reads the file at \<open>fontpath\<close> a second time, whole; the model takes
  the file to be the one that was opened, unchanged.
\<close>

definition readFontData :: "(byte list) action" where
  "readFontData w = (Inr (content (fd_of w)), w)"

definition Parse_fd :: "unit action" where
  "Parse_fd =
     seq (Read 4) (\<lambda>version.
     if \<not> CompareBytes version [0x00, 0x01, 0x00, 0x00] then fail UnrecognizedFormat else
     seq ReadUShort (\<lambda>numTables.
     seq (ignoring_err (Skip (3 * 2))) (\<lambda>_.
     seq (assign (\<lambda>me. me\<lparr>tables := Map.empty\<rparr>)) (\<lambda>_.
     seq (directory_loop 0 numTables) (\<lambda>_.
     seq ParseHead (\<lambda>_.
     seq ParseHhea (\<lambda>_.
     seq ParseMaxp (\<lambda>_.
     seq ParseHmtx (\<lambda>_.
     seq ParseCmap (\<lambda>_.
     seq ParseName (\<lambda>_.
     seq ParseOS2 (\<lambda>_.
     seq ParsePost (\<lambda>_.
     seq ParseLoca (\<lambda>_.
     seq readFontData (\<lambda>b.
     assign (\<lambda>me. me\<lparr>cahceFontData := b\<rparr>))))))))))))))))"

text \<open>
  \<open>me.Parse(fontpath)\<close> for a path that names a readable file with the given bytes:
  \<open>os.Open\<close> yields the file with its cursor at 0.
\<close>

definition Parse :: "TTFParser \<Rightarrow> byte list \<Rightarrow> (error + unit) \<times> world" where
  "Parse me font = Parse_fd \<lparr>me_of = me, fd_of = \<lparr>content = font, pos = 0\<rparr>\<rparr>"

subsection \<open>Accessors\<close>

definition Symbolic :: int where
  "Symbolic = push_bit 2 1"

definition Nonsymbolic :: int where
  "Nonsymbolic = push_bit 5 1"

definition Flag :: "TTFParser \<Rightarrow> int" where
  "Flag me = (let flag = 0 in if symbol me then flag OR Symbolic else flag OR Nonsymbolic)"

definition Ascender :: "TTFParser \<Rightarrow> int" where
  "Ascender me = (if typoAscender me = 0 then ascender me else int (usWinAscent me))"

definition Descender :: "TTFParser \<Rightarrow> int" where
  "Descender me =
     (if typoDescender me = 0 then descender me
      else let descender' = int (usWinDescent me) in
           if descender me < 0 then descender' * (- 1) else descender')"

definition Widths :: "TTFParser \<Rightarrow> nat list" where
  "Widths me = widths me"

definition Chars :: "TTFParser \<Rightarrow> (int \<rightharpoonup> nat)" where
  "Chars me = chars me"

definition NumGlyphs :: "TTFParser \<Rightarrow> nat" where
  "NumGlyphs me = numGlyphs me"

subsection \<open>A small font\<close>

text \<open>
  A font file of 468 bytes with the nine tables the parser reads, in the order \<open>head\<close>,
  \<open>hhea\<close>, \<open>maxp\<close>, \<open>cmap\<close>, \<open>hmtx\<close>, \<open>name\<close>, \<open>OS/2\<close>, \<open>post\<close>,
  \<open>loca\<close>: 1000 units per em, ascender 800, descender -200, two horizontal metrics (500
  and 600) for three glyphs, a format 4 character map with the segments \<open>A..B\<close> (by
  delta), \<open>a..b\<close> (by the glyph array) and \<open>0xFFFF\<close>, the PostScript name \<open>Demo10\<close> in
  UTF-16BE, and an \<open>OS/2\<close> table of version 2 with typoDescender -250 and usWinDescent 300.
  The directory entry of \<open>hmtx\<close> is at bytes 76 to 91, \<open>numberOfHMetrics\<close> at bytes 244
  and 245, \<open>numGlyphs\<close> at bytes 250 and 251.
\<close>

definition demo_font :: "byte list" where
  "demo_font =
    [0x00, 0x01, 0x00, 0x00, 0x00, 0x09, 0x00, 0x80, 0x00, 0x03, 0x00, 0x10, 0x68, 0x65, 0x61, 0x64,
     0x00, 0x00, 0x00, 0x00, 0x00, 0x00, 0x00, 0x9C, 0x00, 0x00, 0x00, 0x36, 0x68, 0x68, 0x65, 0x61,
     0x00, 0x00, 0x00, 0x00, 0x00, 0x00, 0x00, 0xD2, 0x00, 0x00, 0x00, 0x24, 0x6D, 0x61, 0x78, 0x70,
     0x00, 0x00, 0x00, 0x00, 0x00, 0x00, 0x00, 0xF6, 0x00, 0x00, 0x00, 0x06, 0x63, 0x6D, 0x61, 0x70,
     0x00, 0x00, 0x00, 0x00, 0x00, 0x00, 0x00, 0xFC, 0x00, 0x00, 0x00, 0x38, 0x68, 0x6D, 0x74, 0x78,
     0x00, 0x00, 0x00, 0x00, 0x00, 0x00, 0x01, 0x34, 0x00, 0x00, 0x00, 0x0A, 0x6E, 0x61, 0x6D, 0x65,
     0x00, 0x00, 0x00, 0x00, 0x00, 0x00, 0x01, 0x3E, 0x00, 0x00, 0x00, 0x1E, 0x4F, 0x53, 0x2F, 0x32,
     0x00, 0x00, 0x00, 0x00, 0x00, 0x00, 0x01, 0x5C, 0x00, 0x00, 0x00, 0x60, 0x70, 0x6F, 0x73, 0x74,
     0x00, 0x00, 0x00, 0x00, 0x00, 0x00, 0x01, 0xBC, 0x00, 0x00, 0x00, 0x10, 0x6C, 0x6F, 0x63, 0x61,
     0x00, 0x00, 0x00, 0x00, 0x00, 0x00, 0x01, 0xCC, 0x00, 0x00, 0x00, 0x08, 0x00, 0x01, 0x00, 0x00,
     0x00, 0x01, 0x00, 0x00, 0x00, 0x00, 0x00, 0x00, 0x5F, 0x0F, 0x3C, 0xF5, 0x00, 0x00, 0x03, 0xE8,
     0x00, 0x00, 0x00, 0x00, 0x00, 0x00, 0x00, 0x00, 0x00, 0x00, 0x00, 0x00, 0x00, 0x00, 0x00, 0x00,
     0xFF, 0x9C, 0xFF, 0x38, 0x03, 0x84, 0x03, 0x20, 0x00, 0x00, 0x00, 0x08, 0x00, 0x02, 0x00, 0x00,
     0x00, 0x00, 0x00, 0x01, 0x00, 0x00, 0x03, 0x20, 0xFF, 0x38, 0x00, 0x00, 0x00, 0x00, 0x00, 0x00,
     0x00, 0x00, 0x00, 0x00, 0x00, 0x00, 0x00, 0x00, 0x00, 0x00, 0x00, 0x00, 0x00, 0x00, 0x00, 0x00,
     0x00, 0x00, 0x00, 0x00, 0x00, 0x02, 0x00, 0x00, 0x50, 0x00, 0x00, 0x03, 0x00, 0x00, 0x00, 0x01,
     0x00, 0x03, 0x00, 0x01, 0x00, 0x00, 0x00, 0x0C, 0x00, 0x04, 0x00, 0x2C, 0x00, 0x00, 0x00, 0x06,
     0x00, 0x04, 0x00, 0x01, 0x00, 0x02, 0x00, 0x42, 0x00, 0x62, 0xFF, 0xFF, 0x00, 0x00, 0x00, 0x41,
     0x00, 0x61, 0xFF, 0xFF, 0xFF, 0xC0, 0x00, 0x00, 0x00, 0x01, 0x00, 0x00, 0x00, 0x04, 0x00, 0x00,
     0x00, 0x01, 0x00, 0x00, 0x01, 0xF4, 0x00, 0x0A, 0x02, 0x58, 0x00, 0x14, 0x00, 0x1E, 0x00, 0x00,
     0x00, 0x01, 0x00, 0x12, 0x00, 0x03, 0x00, 0x01, 0x04, 0x09, 0x00, 0x06, 0x00, 0x0C, 0x00, 0x00,
     0x00, 0x44, 0x00, 0x65, 0x00, 0x6D, 0x00, 0x6F, 0x00, 0x31, 0x00, 0x30, 0x00, 0x02, 0x01, 0xF4,
     0x01, 0x90, 0x00, 0x05, 0x00, 0x00, 0x00, 0x00, 0x00, 0x00, 0x00, 0x00, 0x00, 0x00, 0x00, 0x00,
     0x00, 0x00, 0x00, 0x00, 0x00, 0x00, 0x00, 0x00, 0x00, 0x00, 0x00, 0x00, 0x00, 0x00, 0x00, 0x00,
     0x00, 0x00, 0x00, 0x00, 0x00, 0x00, 0x00, 0x00, 0x00, 0x00, 0x00, 0x00, 0x00, 0x00, 0x00, 0x00,
     0x00, 0x00, 0x00, 0x00, 0x00, 0x00, 0x00, 0x00, 0x00, 0x00, 0x00, 0x40, 0x00, 0x41, 0x00, 0x62,
     0x02, 0xEE, 0xFF, 0x06, 0x00, 0x64, 0x03, 0x84, 0x01, 0x2C, 0x00, 0x00, 0x00, 0x00, 0x00, 0x00,
     0x00, 0x00, 0x01, 0xC2, 0x02, 0xBC, 0x00, 0x00, 0x00, 0x00, 0x00, 0x00, 0x00, 0x03, 0x00, 0x00,
     0x00, 0x00, 0x00, 0x00, 0xFF, 0xB5, 0x00, 0x32, 0x00, 0x00, 0x00, 0x00, 0x00, 0x00, 0x00, 0x0A,
     0x00, 0x14, 0x00, 0x1E]"

subsection \<open>Small inputs\<close>

text \<open>
  A parser object that has read \<open>hhea\<close> and \<open>maxp\<close> (two metrics, four glyphs) in front of a
  file whose \<open>hmtx\<close> table starts at byte 2 with the advance widths 500 and 600.
\<close>

definition hmtx_demo :: world where
  "hmtx_demo =
     \<lparr>me_of = new_TTFParser
        \<lparr>tables := [''hmtx'' \<mapsto> \<lparr>CheckSum = 0, Offset = 2, Length = 10\<rparr>],
         numberOfHMetrics := 2, numGlyphs := 4\<rparr>,
      fd_of = \<lparr>content = [0xAA, 0xBB, 0x01, 0xF4, 0x00, 0x0A, 0x02, 0x58, 0x00, 0x14, 0x00, 0x1E,
                           0x00, 0x28], pos = 0\<rparr>\<rparr>"

text \<open>
  The same, for a parser object that holds one width, 7, from an earlier call.
\<close>

definition hmtx_held :: world where
  "hmtx_held = hmtx_demo\<lparr>me_of := (me_of hmtx_demo)\<lparr>widths := [7]\<rparr>\<rparr>"

text \<open>
  A parser object with \<open>unitsPerEm\<close> 7 in front of a file whose \<open>head\<close> table starts at
  byte 0 and carries the magic number \<open>0x5F0F3CF4\<close>.
\<close>

definition head_demo :: world where
  "head_demo =
     \<lparr>me_of = new_TTFParser
        \<lparr>tables := [''head'' \<mapsto> \<lparr>CheckSum = 0, Offset = 0, Length = 54\<rparr>], unitsPerEm := 7\<rparr>,
      fd_of = \<lparr>content = [0x00, 0x01, 0x00, 0x00, 0x00, 0x01, 0x00, 0x00, 0x00, 0x00, 0x00, 0x00,
                           0x5F, 0x0F, 0x3C, 0xF4, 0x00, 0x00, 0x03, 0xE8], pos = 0\<rparr>\<rparr>"

definition empty_world :: world where
  "empty_world = \<lparr>me_of = new_TTFParser, fd_of = \<lparr>content = [], pos = 0\<rparr>\<rparr>"

subsection \<open>Notions for the properties\<close>

text \<open>
  \<open>inv I m\<close>: started on a parser object that satisfies \<open>I\<close>, \<open>m\<close> leaves one that
  satisfies \<open>I\<close>, whether it returns an error or not.
\<close>

definition inv :: "(TTFParser \<Rightarrow> bool) \<Rightarrow> 'a action \<Rightarrow> bool" where
  "inv I m \<longleftrightarrow> (\<forall>w. I (me_of w) \<longrightarrow> I (me_of (snd (m w))))"

text \<open>The fields that \<open>ParseHmtx\<close> works on, and those that \<open>ParseCmap\<close> fills.\<close>

definition metrics_are :: "nat list \<Rightarrow> nat \<Rightarrow> nat \<Rightarrow> TTFParser \<Rightarrow> bool" where
  "metrics_are ws n g me \<longleftrightarrow> widths me = ws \<and> numberOfHMetrics me = n \<and> numGlyphs me = g"

definition cmap_is :: "bool \<Rightarrow> (int \<rightharpoonup> nat) \<Rightarrow> TTFParser \<Rightarrow> bool" where
  "cmap_is s c me \<longleftrightarrow> symbol me = s \<and> chars me = c"

text \<open>The \<open>n\<close> advance widths of a table that starts at byte \<open>p\<close>: one in every four bytes.\<close>

definition advance_widths :: "byte list \<Rightarrow> nat \<Rightarrow> nat \<Rightarrow> nat list" where
  "advance_widths bytes p n = map (\<lambda>j. be_nat (take 2 (drop (p + 4 * j) bytes))) [0..<n]"

text \<open>The position at which \<open>ParseHmtx\<close> starts to read: the seek's, when it succeeds.\<close>

definition hmtx_start :: "world \<Rightarrow> nat" where
  "hmtx_start w = pos (fd_of (snd (Seek ''hmtx'' w)))"

text \<open>
  \<open>triple P m Q\<close>: when \<open>m\<close> starts on a parser object that satisfies \<open>P\<close> and returns
  without error, its value and the parser object satisfy \<open>Q\<close>.
\<close>

definition triple :: "(TTFParser \<Rightarrow> bool) \<Rightarrow> 'a action \<Rightarrow> ('a \<Rightarrow> TTFParser \<Rightarrow> bool) \<Rightarrow> bool" where
  "triple P m Q \<longleftrightarrow> (\<forall>w a w'. P (me_of w) \<longrightarrow> m w = (Inr a, w') \<longrightarrow> Q a (me_of w'))"

text \<open>What C5 and C8 say of the parser object after a parse.\<close>

definition widths_fit :: "TTFParser \<Rightarrow> bool" where
  "widths_fit me \<longleftrightarrow> length (widths me) = max (numberOfHMetrics me) (numGlyphs me)"

definition chars_ok :: "TTFParser \<Rightarrow> bool" where
  "chars_ok me \<longleftrightarrow> (\<forall>k v. chars me k = Some v \<longrightarrow> v \<noteq> 0 \<and> k \<noteq> 0xFFFF)"

text \<open>
  The recursive equations of the loops are unfolded where a proof asks for them.
\<close>

declare hmtx_loop.simps [simp del] ArrayPadUint_loop.simps [simp del]
  cmap_records.simps [simp del] read_ushorts.simps [simp del]
  cmap_codepoints.simps [simp del] cmap_segments.simps [simp del]
  digits.simps [simp del] strings_Replace.simps [simp del]
  doExecute.simps [simp del] replaceAll.simps [simp del]
  name_records.simps [simp del] loca_short.simps [simp del] loca_long.simps [simp del]
  CompareBytes_loop.simps [simp del] directory_loop.simps [simp del]

section \<open>Properties\<close>

subsection \<open>Sequencing and invariants of the parser object\<close>

lemma seq_Inr:
  "seq m k w = (Inr b, w') \<longleftrightarrow> (\<exists>a w1. m w = (Inr a, w1) \<and> k a w1 = (Inr b, w'))"
  by (auto simp: seq_def split: prod.splits sum.splits)

lemma seq_Inr_E:
  assumes "seq m k w = (Inr b, w')"
  obtains a w1 where "m w = (Inr a, w1)" and "k a w1 = (Inr b, w')"
  using assms by (auto simp: seq_Inr)

named_theorems inv_intros

lemma invD: "inv I m \<Longrightarrow> m w = (r, w') \<Longrightarrow> I (me_of w) \<Longrightarrow> I (me_of w')"
  by (auto simp: inv_def dest: spec [where x = w])

lemma inv_eta: "(\<And>w :: world. I (me_of w) \<Longrightarrow> I (me_of (snd (m w)))) \<Longrightarrow> inv I m"
  by (simp add: inv_def)

lemma inv_ret [inv_intros]: "inv I (ret v)"
  by (simp add: inv_def ret_def)

lemma inv_fail [inv_intros]: "inv I (fail e)"
  by (simp add: inv_def fail_def)

lemma inv_seq [inv_intros]:
  assumes "inv I m" and "\<And>a. inv I (k a)"
  shows "inv I (seq m k)"
proof (rule inv_eta)
  fix w :: world assume I: "I (me_of w)"
  obtain r w1 where m: "m w = (r, w1)" by (cases "m w")
  have I1: "I (me_of w1)" using invD [OF assms(1) m I] .
  show "I (me_of (snd (seq m k w)))"
  proof (cases r)
    case (Inl e)
    with m I1 show ?thesis by (simp add: seq_def)
  next
    case (Inr a)
    obtain r2 w2 where k: "k a w1 = (r2, w2)" by (cases "k a w1")
    from invD [OF assms(2) k I1] m Inr k show ?thesis by (simp add: seq_def)
  qed
qed

lemma inv_ignoring_err [inv_intros]: "inv I m \<Longrightarrow> inv I (ignoring_err m)"
  by (simp add: inv_def ignoring_err_def)

lemma inv_with_me [inv_intros]: "(\<And>me. inv I (g me)) \<Longrightarrow> inv I (with_me g)"
  by (simp add: inv_def with_me_def)

lemma inv_assign: "(\<And>me. I me \<Longrightarrow> I (g me)) \<Longrightarrow> inv I (assign g)"
  by (simp add: inv_def assign_def)

lemma inv_read_into:
  assumes "inv I rd" and "\<And>v me. I me \<Longrightarrow> I (store v me)"
  shows "inv I (read_into rd store)"
proof (rule inv_eta)
  fix w :: world assume I: "I (me_of w)"
  obtain r w1 where rd: "rd w = (r, w1)" by (cases "rd w")
  have "I (me_of w1)" using invD [OF assms(1) rd I] .
  then show "I (me_of (snd (read_into rd store w)))"
    using rd by (cases r) (simp_all add: read_into_def assms(2))
qed

lemma inv_if [inv_intros]:
  "(c \<Longrightarrow> inv I a) \<Longrightarrow> (\<not> c \<Longrightarrow> inv I b) \<Longrightarrow> inv I (if c then a else b)"
  by simp

lemma inv_Read [inv_intros]: "inv I (Read n)"
  by (simp add: inv_def Read_def Let_def)

lemma inv_Skip [inv_intros]: "inv I (Skip n)"
  by (simp add: inv_def Skip_def)

lemma inv_SeekAbs [inv_intros]: "inv I (SeekAbs n)"
  by (simp add: inv_def SeekAbs_def)

lemma inv_Seek [inv_intros]: "inv I (Seek tag)"
  by (simp add: inv_def Seek_def SeekAbs_def split: option.splits)

lemma inv_FTell [inv_intros]: "inv I FTell"
  by (simp add: inv_def FTell_def)

lemma inv_ReadUShort [inv_intros]: "inv I ReadUShort"
  unfolding ReadUShort_def by (intro inv_intros)

lemma inv_ReadShort [inv_intros]: "inv I ReadShort"
  unfolding ReadShort_def Let_def by (intro inv_intros)

lemma inv_ReadULong [inv_intros]: "inv I ReadULong"
  unfolding ReadULong_def by (intro inv_intros)

lemma inv_index [inv_intros]: "inv I (index xs i)"
  unfolding index_def by (intro inv_intros)

lemma inv_glyph_index [inv_intros]: "inv I (glyph_index c d ro)"
  unfolding glyph_index_def by (intro inv_intros)

lemma inv_PregReplace [inv_intros]: "inv I (PregReplace p r s)"
  unfolding PregReplace_def by (intro inv_intros)

lemma inv_ArrayPadUint [inv_intros]: "inv I (ArrayPadUint arr sz val)"
  unfolding ArrayPadUint_def by (intro inv_intros)

lemma inv_readFontData [inv_intros]: "inv I readFontData"
  by (simp add: inv_def readFontData_def)

text \<open>The loops, unfolded once.\<close>

lemma read_ushorts_unfold:
  "read_ushorts i n xs =
     (if i < n then seq ReadUShort (\<lambda>tmp. read_ushorts (i + 1) n (xs @ [tmp])) else ret xs)"
  by (rule ext, subst read_ushorts.simps) (simp add: ret_def)

lemma loca_short_unfold:
  "loca_short i n xs =
     (if i < n then seq ReadUShort (\<lambda>item. loca_short (i + 1) n (xs @ [item * 2])) else ret xs)"
  by (rule ext, subst loca_short.simps) (simp add: ret_def)

lemma loca_long_unfold:
  "loca_long i n xs =
     (if i < n then seq ReadULong (\<lambda>item. loca_long (i + 1) n (xs @ [item])) else ret xs)"
  by (rule ext, subst loca_long.simps) (simp add: ret_def)

lemma inv_read_ushorts [inv_intros]: "inv I (read_ushorts i n xs)"
proof (induction "n - i" arbitrary: i xs)
  case 0
  then show ?case by (subst read_ushorts_unfold) (simp add: inv_intros)
next
  case (Suc k)
  then show ?case by (subst read_ushorts_unfold) (auto intro!: inv_intros)
qed

lemma inv_loca_short [inv_intros]: "inv I (loca_short i n xs)"
proof (induction "n - i" arbitrary: i xs)
  case 0
  then show ?case by (subst loca_short_unfold) (simp add: inv_intros)
next
  case (Suc k)
  then show ?case by (subst loca_short_unfold) (auto intro!: inv_intros)
qed

lemma inv_loca_long [inv_intros]: "inv I (loca_long i n xs)"
proof (induction "n - i" arbitrary: i xs)
  case 0
  then show ?case by (subst loca_long_unfold) (simp add: inv_intros)
next
  case (Suc k)
  then show ?case by (subst loca_long_unfold) (auto intro!: inv_intros)
qed

lemma name_records_unfold:
  "name_records i count tableOffset stringOffset =
     (if i < count then
        seq (Skip (3 * 2)) (\<lambda>_.
        seq ReadUShort (\<lambda>nameID.
        seq ReadUShort (\<lambda>length.
        seq ReadUShort (\<lambda>offset.
        if nameID = 6 then
          seq (SeekAbs (tableOffset + stringOffset + offset)) (\<lambda>_.
          seq (Read length) (\<lambda>stmp.
          let tmpStmp = filter (\<lambda>v. v \<noteq> 0) stmp;
              s = BytesToString tmpStmp;
              s = strings_Replace s (Itoa 0) [] in
          seq (PregReplace name_pattern [] s) (\<lambda>s.
          assign (\<lambda>me. me\<lparr>postScriptName := s\<rparr>))))
        else name_records (i + 1) count tableOffset stringOffset))))
      else ret ())"
  by (rule ext, subst name_records.simps) (simp add: ret_def)

lemma inv_name_records:
  assumes "\<And>me s. I me \<Longrightarrow> I (me\<lparr>postScriptName := s\<rparr>)"
  shows "inv I (name_records i n t so)"
proof (induction "n - i" arbitrary: i)
  case 0
  then show ?case by (subst name_records_unfold) (simp add: inv_intros)
next
  case (Suc k)
  then show ?case
    by (subst name_records_unfold)
       (auto simp: Let_def assms intro!: inv_intros inv_assign)
qed

lemma inv_ParseName:
  assumes "\<And>me s. I me \<Longrightarrow> I (me\<lparr>postScriptName := s\<rparr>)"
  shows "inv I ParseName"
  unfolding ParseName_def
  by (intro inv_intros inv_assign inv_name_records; simp add: assms)

lemma directory_loop_unfold:
  "directory_loop i numTables =
     (if i < numTables then
        seq (Read 4) (\<lambda>tag.
        seq ReadULong (\<lambda>checksum.
        seq ReadULong (\<lambda>offset.
        seq ReadULong (\<lambda>length.
        seq (assign (\<lambda>me. me\<lparr>tables := (tables me)(BytesToString tag \<mapsto>
               \<lparr>CheckSum = checksum, Offset = offset, Length = length\<rparr>)\<rparr>)) (\<lambda>_.
        directory_loop (i + 1) numTables)))))
      else ret ())"
  by (rule ext, subst directory_loop.simps) (simp add: ret_def)

lemma inv_directory_loop:
  assumes "\<And>me t. I me \<Longrightarrow> I (me\<lparr>tables := t\<rparr>)"
  shows "inv I (directory_loop i n)"
proof (induction "n - i" arbitrary: i)
  case 0
  then show ?case by (subst directory_loop_unfold) (simp add: inv_intros)
next
  case (Suc k)
  then show ?case
    by (subst directory_loop_unfold) (auto simp: assms intro!: inv_intros inv_assign)
qed

lemma cmap_records_unfold:
  "cmap_records i numTables offset31 =
     (if i < numTables then
        seq ReadUShort (\<lambda>platformID.
        seq ReadUShort (\<lambda>encodingID.
        seq ReadULong (\<lambda>offset.
        seq (assign (\<lambda>me. me\<lparr>symbol := False\<rparr>)) (\<lambda>_.
        if platformID = 3 \<and> encodingID = 1 then
          seq (if encodingID = 0 then assign (\<lambda>me. me\<lparr>symbol := True\<rparr>) else ret ()) (\<lambda>_.
          cmap_records (i + 1) numTables offset)
        else cmap_records (i + 1) numTables offset31))))
      else ret offset31)"
  by (rule ext, subst cmap_records.simps) (simp add: ret_def)

lemma inv_cmap_records:
  assumes "\<And>me b. I me \<Longrightarrow> I (me\<lparr>symbol := b\<rparr>)"
  shows "inv I (cmap_records i n off)"
proof (induction "n - i" arbitrary: i off)
  case 0
  then show ?case by (subst cmap_records_unfold) (simp add: inv_intros)
next
  case (Suc k)
  then show ?case
    by (subst cmap_records_unfold) (auto simp: assms intro!: inv_intros inv_assign)
qed

lemma cmap_codepoints_unfold:
  "cmap_codepoints c c2 d ro =
     (if c \<le> c2 then
        (if c = 0xFFFF then ret ()
         else
           seq (glyph_index c d ro) (\<lambda>gid.
           seq (if gid > 0 then assign (\<lambda>me. me\<lparr>chars := (chars me)(int c \<mapsto> gid)\<rparr>)
                else ret ()) (\<lambda>_.
           cmap_codepoints (c + 1) c2 d ro)))
      else ret ())"
  by (rule ext, subst cmap_codepoints.simps) (simp add: ret_def)

lemma inv_cmap_codepoints:
  assumes "\<And>me c gid. I me \<Longrightarrow> gid > 0 \<Longrightarrow> c \<noteq> 0xFFFF \<Longrightarrow>
             I (me\<lparr>chars := (chars me)(int c \<mapsto> gid)\<rparr>)"
  shows "inv I (cmap_codepoints c c2 d ro)"
proof (induction "c2 + 1 - c" arbitrary: c)
  case 0
  then show ?case by (subst cmap_codepoints_unfold) (simp add: inv_intros)
next
  case (Suc k)
  then show ?case
    by (subst cmap_codepoints_unfold) (auto simp: assms intro!: inv_intros inv_assign)
qed

lemma cmap_segments_unfold:
  "cmap_segments i segCount startCount endCount idDelta idRangeOffset offset =
     (if i < segCount then
        seq (index startCount i) (\<lambda>c1.
        seq (index endCount i) (\<lambda>c2.
        seq (index idDelta i) (\<lambda>d.
        seq (index idRangeOffset i) (\<lambda>ro.
        seq (if ro > 0 then SeekAbs (offset + 2 * i + ro) else ret ()) (\<lambda>_.
        seq (cmap_codepoints c1 c2 d ro) (\<lambda>_.
        cmap_segments (i + 1) segCount startCount endCount idDelta idRangeOffset offset))))))
      else ret ())"
  by (rule ext, subst cmap_segments.simps) (simp add: ret_def)

lemma inv_cmap_segments:
  assumes "\<And>me c gid. I me \<Longrightarrow> gid > 0 \<Longrightarrow> c \<noteq> 0xFFFF \<Longrightarrow>
             I (me\<lparr>chars := (chars me)(int c \<mapsto> gid)\<rparr>)"
  shows "inv I (cmap_segments i n sc ec idd iro off)"
proof (induction "n - i" arbitrary: i)
  case 0
  then show ?case by (subst cmap_segments_unfold) (simp add: inv_intros)
next
  case (Suc k)
  then show ?case
    by (subst cmap_segments_unfold)
       (auto simp: assms intro!: inv_intros inv_cmap_codepoints)
qed

text \<open>What each table parser leaves alone.\<close>

lemma inv_widths_early:
  "inv (\<lambda>me. widths me = ws) ParseHead"
  "inv (\<lambda>me. widths me = ws) ParseHhea"
  "inv (\<lambda>me. widths me = ws) ParseMaxp"
  unfolding ParseHead_def ParseHhea_def ParseMaxp_def
  by (intro inv_intros inv_assign inv_read_into; simp)+

lemma inv_metrics_ParseCmap: "inv (metrics_are ws n g) ParseCmap"
  unfolding ParseCmap_def Let_def
  by (intro inv_intros inv_assign inv_cmap_records inv_cmap_segments;
      simp add: metrics_are_def)

lemma inv_metrics_late:
  "inv (metrics_are ws n g) ParseName"
  "inv (metrics_are ws n g) ParseOS2"
  "inv (metrics_are ws n g) ParsePost"
  "inv (metrics_are ws n g) ParseLoca"
  unfolding ParseOS2_def ParsePost_def ParseLoca_def
  by (intro inv_ParseName inv_intros inv_assign inv_read_into; simp add: metrics_are_def)+

lemma inv_cmap_late:
  "inv (cmap_is s c) ParseName"
  "inv (cmap_is s c) ParseOS2"
  "inv (cmap_is s c) ParsePost"
  "inv (cmap_is s c) ParseLoca"
  unfolding ParseOS2_def ParsePost_def ParseLoca_def
  by (intro inv_ParseName inv_intros inv_assign inv_read_into; simp add: cmap_is_def)+

subsection \<open>\<open>hmtx\<close>: what the loop collects and what the padding makes of it\<close>

lemma advance_widths_Suc:
  "advance_widths bytes p (Suc n) =
     be_nat (take 2 (drop p bytes)) # advance_widths bytes (p + 4) n"
proof -
  have "[0..<Suc n] = 0 # map Suc [0..<n]"
    by (simp add: upt_conv_Cons map_Suc_upt del: upt_Suc)
  then show ?thesis
    by (simp add: advance_widths_def comp_def add.assoc del: upt_Suc)
qed

lemma ReadUShort_Inr:
  assumes "ReadUShort w = (Inr v, w')"
  shows "v = be_nat (take 2 (drop (pos (fd_of w)) (content (fd_of w))))"
    and "w' = w\<lparr>fd_of := (fd_of w)\<lparr>pos := pos (fd_of w) + 2\<rparr>\<rparr>"
  using assms
  by (auto simp: ReadUShort_def Read_def seq_def ret_def Let_def split: if_splits)

lemma hmtx_loop_Inr:
  "hmtx_loop i w = (Inr u, w') \<Longrightarrow>
     me_of w' = (me_of w)\<lparr>widths := widths (me_of w) @
       advance_widths (content (fd_of w)) (pos (fd_of w)) (numberOfHMetrics (me_of w) - i)\<rparr>"
proof (induction i w rule: hmtx_loop.induct)
  case (1 i w)
  show ?case
  proof (cases "i < numberOfHMetrics (me_of w)")
    case False
    with "1.prems" show ?thesis
      by (simp add: hmtx_loop.simps advance_widths_def)
  next
    case True
    from "1.prems" True obtain v w1 where
      r: "ReadUShort w = (Inr v, w1)" and
      rest: "hmtx_loop (i + 1)
               (w1\<lparr>fd_of := (fd_of w1)\<lparr>pos := pos (fd_of w1) + 2\<rparr>,
                   me_of := (me_of w1)\<lparr>widths := widths (me_of w1) @ [v]\<rparr>\<rparr>) = (Inr u, w')"
      by (subst (asm) hmtx_loop.simps) (auto simp: seq_Inr Skip_def assign_def)
    let ?w3 = "w1\<lparr>fd_of := (fd_of w1)\<lparr>pos := pos (fd_of w1) + 2\<rparr>,
                   me_of := (me_of w1)\<lparr>widths := widths (me_of w1) @ [v]\<rparr>\<rparr>"
    have ih: "me_of w' = (me_of ?w3)\<lparr>widths := widths (me_of ?w3) @
       advance_widths (content (fd_of ?w3)) (pos (fd_of ?w3)) (numberOfHMetrics (me_of ?w3) - (i + 1))\<rparr>"
      using "1.IH" [OF True r, of "()" "w1\<lparr>fd_of := (fd_of w1)\<lparr>pos := pos (fd_of w1) + 2\<rparr>\<rparr>" "()" ?w3] rest
      by (simp add: Skip_def assign_def)
    have n: "numberOfHMetrics (me_of w) - i = Suc (numberOfHMetrics (me_of w) - (i + 1))"
      using True by simp
    have "pos (fd_of ?w3) = pos (fd_of w) + 4" and "content (fd_of ?w3) = content (fd_of w)"
      and "me_of ?w3 = (me_of w)\<lparr>widths := widths (me_of w) @ [v]\<rparr>"
      using ReadUShort_Inr(2) [OF r] by simp_all
    with ih show ?thesis
      using ReadUShort_Inr(1) [OF r]
      by (simp only: n advance_widths_Suc) simp
  qed
qed

lemma ArrayPadUint_loop_eq:
  "ArrayPadUint_loop arr sz val i result =
     result @ map (\<lambda>j. if j < length arr then arr ! j else val) [i..<sz]"
proof (induction "sz - i" arbitrary: i result)
  case 0
  then show ?case by (simp add: ArrayPadUint_loop.simps)
next
  case (Suc k)
  then have "i < sz" by simp
  moreover have "k = sz - (i + 1)" using Suc.hyps(2) by simp
  ultimately show ?case
    using Suc.hyps(1) [of "i + 1"]
    by (subst ArrayPadUint_loop.simps) (simp add: upt_conv_Cons)
qed

lemma ParseHmtx_Inr:
  assumes ok: "ParseHmtx w = (Inr u, w')" and fresh: "widths (me_of w) = []"
  defines "n \<equiv> numberOfHMetrics (me_of w)" and "g \<equiv> numGlyphs (me_of w)"
  defines "ws \<equiv> advance_widths (content (fd_of w)) (hmtx_start w) n"
  defines "idx \<equiv> (n + 2 ^ 64 - 1) mod 2 ^ 64"
  shows "me_of w' = (me_of w)\<lparr>widths :=
           (if n < g then map (\<lambda>j. if j < n then ws ! j else ws ! idx) [0..<g] else ws)\<rparr>"
    and "n < g \<Longrightarrow> idx < n"
proof -
  let ?w1 = "snd (Seek ''hmtx'' w)"
  have me1: "me_of ?w1 = me_of w" and c1: "content (fd_of ?w1) = content (fd_of w)"
    by (auto simp: Seek_def SeekAbs_def split: option.splits)
  from ok obtain w2 where
    loop: "hmtx_loop 0 ?w1 = (Inr (), w2)" and
    tail: "with_me (\<lambda>me.
       if numberOfHMetrics me < numGlyphs me then
         (let idx = (numberOfHMetrics me + 2 ^ 64 - 1) mod 2 ^ 64 in
          if idx < length (widths me) then
            seq (ArrayPadUint (widths me) (numGlyphs me) (widths me ! idx)) (\<lambda>padded.
            assign (\<lambda>me. me\<lparr>widths := padded\<rparr>))
          else fail PanicIndexOutOfRange)
       else ret ()) w2 = (Inr u, w')"
    by (auto simp: ParseHmtx_def seq_Inr ignoring_err_def)
  have me2: "me_of w2 = (me_of w)\<lparr>widths := ws\<rparr>"
    using hmtx_loop_Inr [OF loop] by (simp add: me1 c1 fresh ws_def n_def hmtx_start_def)
  have len: "length ws = n" by (simp add: ws_def advance_widths_def)
  show "me_of w' = (me_of w)\<lparr>widths :=
           (if n < g then map (\<lambda>j. if j < n then ws ! j else ws ! idx) [0..<g] else ws)\<rparr>"
    using tail me2
    by (auto simp: with_me_def len n_def [symmetric] g_def [symmetric]
        idx_def Let_def seq_Inr ArrayPadUint_def ArrayPadUint_loop_eq ret_def assign_def fail_def
        split: if_splits)
  show "idx < n" if "n < g"
    using tail that me2
    by (auto simp: with_me_def len n_def [symmetric] g_def [symmetric] idx_def
        Let_def fail_def split: if_splits)
qed

subsection \<open>What a successful run establishes\<close>

lemma tripleD: "triple P m Q \<Longrightarrow> P (me_of w) \<Longrightarrow> m w = (Inr a, w') \<Longrightarrow> Q a (me_of w')"
  by (simp add: triple_def)

lemma triple_seq:
  assumes "triple P m R" and "\<And>a. triple (R a) (k a) Q"
  shows "triple P (seq m k) Q"
  using assms unfolding triple_def seq_Inr by blast

lemma triple_inv: "inv I m \<Longrightarrow> triple I m (\<lambda>_. I)"
  unfolding triple_def by (blast dest: invD)

lemma triple_seq_inv:
  assumes "inv I m" and "\<And>a. triple I (k a) Q"
  shows "triple I (seq m k) Q"
  by (rule triple_seq [OF triple_inv [OF assms(1)] assms(2)])

lemma triple_skip:
  assumes "\<And>a. triple (\<lambda>_. True) (k a) Q"
  shows "triple (\<lambda>_. True) (seq m k) Q"
  using assms unfolding triple_def seq_Inr by blast

lemma triple_if:
  "(c \<Longrightarrow> triple P a Q) \<Longrightarrow> (\<not> c \<Longrightarrow> triple P b Q) \<Longrightarrow> triple P (if c then a else b) Q"
  by simp

lemma triple_fail: "triple P (fail e) Q"
  by (simp add: triple_def fail_def)

lemma triple_assign: "(\<And>me. P me \<Longrightarrow> Q () (g me)) \<Longrightarrow> triple P (assign g) Q"
  by (simp add: triple_def assign_def)

lemma triple_pre: "triple P' m Q \<Longrightarrow> (\<And>me. P me \<Longrightarrow> P' me) \<Longrightarrow> triple P m Q"
  unfolding triple_def by blast

lemma inv_metrics_lift:
  assumes "\<And>ws n g. inv (metrics_are ws n g) m"
  shows "inv (\<lambda>me. J (widths me) (numberOfHMetrics me) (numGlyphs me)) m"
  unfolding inv_def
proof (intro allI impI)
  fix w :: world
  assume J: "J (widths (me_of w)) (numberOfHMetrics (me_of w)) (numGlyphs (me_of w))"
  have "metrics_are (widths (me_of w)) (numberOfHMetrics (me_of w)) (numGlyphs (me_of w))
          (me_of (snd (m w)))"
    using assms [unfolded inv_def, rule_format, of _ _ _ w] by (simp add: metrics_are_def)
  with J show "J (widths (me_of (snd (m w)))) (numberOfHMetrics (me_of (snd (m w))))
          (numGlyphs (me_of (snd (m w))))"
    by (simp add: metrics_are_def)
qed

lemma inv_cmap_lift:
  assumes "\<And>s c. inv (cmap_is s c) m"
  shows "inv (\<lambda>me. J (symbol me) (chars me)) m"
  unfolding inv_def
proof (intro allI impI)
  fix w :: world
  assume J: "J (symbol (me_of w)) (chars (me_of w))"
  have "cmap_is (symbol (me_of w)) (chars (me_of w)) (me_of (snd (m w)))"
    using assms [unfolded inv_def, rule_format, of _ _ w] by (simp add: cmap_is_def)
  with J show "J (symbol (me_of (snd (m w)))) (chars (me_of (snd (m w))))"
    by (simp add: cmap_is_def)
qed

text \<open>
  \<open>Parse\<close>, cut at \<open>ParseHmtx\<close> and \<open>ParseCmap\<close>: a property that the parsers before
  \<open>ParseHmtx\<close> keep, that \<open>ParseHmtx\<close> and \<open>ParseCmap\<close> turn into another, and that
  the parsers after \<open>ParseCmap\<close> keep in its turn.
\<close>

lemma triple_Parse_fd:
  assumes "\<And>me t. P me \<Longrightarrow> P (me\<lparr>tables := t\<rparr>)"
    and "inv P ParseHead" and "inv P ParseHhea" and "inv P ParseMaxp"
    and "triple P ParseHmtx (\<lambda>_. R)" and "triple R ParseCmap (\<lambda>_. S)"
    and "inv S ParseName" and "inv S ParseOS2" and "inv S ParsePost" and "inv S ParseLoca"
    and "\<And>me b. S me \<Longrightarrow> S (me\<lparr>cahceFontData := b\<rparr>)"
  shows "triple P Parse_fd (\<lambda>_. S)"
  unfolding Parse_fd_def
  apply (rule triple_seq_inv, rule inv_Read)
  apply (rule triple_if, rule triple_fail)
  apply (rule triple_seq_inv, rule inv_ReadUShort)
  apply (rule triple_seq_inv, intro inv_intros)
  apply (rule triple_seq_inv, rule inv_assign, erule assms(1))
  apply (rule triple_seq_inv, rule inv_directory_loop, erule assms(1))
  apply (rule triple_seq_inv, rule assms(2))
  apply (rule triple_seq_inv, rule assms(3))
  apply (rule triple_seq_inv, rule assms(4))
  apply (rule triple_seq, rule assms(5))
  apply (rule triple_seq, rule assms(6))
  apply (rule triple_seq_inv, rule assms(7))
  apply (rule triple_seq_inv, rule assms(8))
  apply (rule triple_seq_inv, rule assms(9))
  apply (rule triple_seq_inv, rule assms(10))
  apply (rule triple_seq_inv, rule inv_readFontData)
  apply (rule triple_inv, rule inv_assign, erule assms(11))
  done

lemma inv_True: "inv (\<lambda>_. True) m"
  by (simp add: inv_def)

lemma triple_ParseHmtx_fit: "triple (\<lambda>me. widths me = []) ParseHmtx (\<lambda>_. widths_fit)"
  unfolding triple_def
proof (intro allI impI)
  fix w :: world and a w'
  assume fresh: "widths (me_of w) = []" and ok: "ParseHmtx w = (Inr a, w')"
  show "widths_fit (me_of w')"
    using ParseHmtx_Inr(1) [OF ok fresh]
    by (simp add: widths_fit_def advance_widths_def)
qed

lemma inv_widths_fit:
  "inv widths_fit ParseCmap" "inv widths_fit ParseName" "inv widths_fit ParseOS2"
  "inv widths_fit ParsePost" "inv widths_fit ParseLoca"
  unfolding widths_fit_def
  by (rule inv_metrics_lift [where J = "\<lambda>ws n g. length ws = max n g"],
      rule inv_metrics_ParseCmap inv_metrics_late)+

lemma Parse_widths_fit:
  "triple (\<lambda>me. widths me = []) Parse_fd (\<lambda>_. widths_fit)"
  by (rule triple_Parse_fd [where R = widths_fit])
     (simp_all add: inv_widths_early triple_ParseHmtx_fit triple_inv inv_widths_fit widths_fit_def)

subsection \<open>\<open>cmap\<close>: the symbol flag\<close>

lemma cmap_records_symbol:
  "cmap_records i n off w = (Inr off', w') \<Longrightarrow>
     (i < n \<longrightarrow> \<not> symbol (me_of w')) \<and> (\<not> i < n \<longrightarrow> off' = off)"
proof (induction "n - i" arbitrary: i off w)
  case 0
  then show ?case unfolding cmap_records_unfold [of i n off] by (simp add: ret_def)
next
  case (Suc k)
  then have less: "i < n" and k: "k = n - Suc i" by simp_all
  have later: "\<not> symbol (me_of w')" if "cmap_records (Suc i) n off1 w1 = (Inr off', w')"
    and "\<not> symbol (me_of w1)" for off1 w1
  proof (cases "Suc i < n")
    case True
    with Suc.hyps(1) [OF k that(1)] show ?thesis by simp
  next
    case False
    with that(1) have "w' = w1"
      unfolding cmap_records_unfold [of "Suc i"] by (simp add: ret_def)
    with that(2) show ?thesis by simp
  qed
  from Suc.prems less show ?case
    unfolding cmap_records_unfold [of i n off]
    by (auto simp: seq_Inr assign_def ret_def dest!: later split: if_splits)
qed

lemma triple_ParseCmap_symbol: "triple (\<lambda>_. True) ParseCmap (\<lambda>_ me. \<not> symbol me)"
  unfolding ParseCmap_def Let_def
  apply (rule triple_skip)
  apply (rule triple_skip)
  apply (rule triple_skip)
  apply (rule triple_seq [where R = "\<lambda>off me. off \<noteq> 0 \<longrightarrow> \<not> symbol me"])
   apply (simp add: triple_def)
   apply (blast dest: cmap_records_symbol)
  apply (rule triple_if, rule triple_fail)
  apply (rule triple_pre [where P' = "\<lambda>me. \<not> symbol me"])
   apply (rule triple_inv)
   apply (intro inv_intros inv_assign inv_cmap_segments; simp)
  apply simp
  done

lemma inv_not_symbol:
  "inv (\<lambda>me. \<not> symbol me) ParseName" "inv (\<lambda>me. \<not> symbol me) ParseOS2"
  "inv (\<lambda>me. \<not> symbol me) ParsePost" "inv (\<lambda>me. \<not> symbol me) ParseLoca"
  by (rule inv_cmap_lift [where J = "\<lambda>s c. \<not> s"], rule inv_cmap_late)+

lemma triple_True: "triple P m (\<lambda>_ _. True)"
  by (simp add: triple_def)

lemma Parse_not_symbol: "triple (\<lambda>_. True) Parse_fd (\<lambda>_ me. \<not> symbol me)"
  by (rule triple_Parse_fd [where R = "\<lambda>_. True"])
     (simp_all add: inv_True triple_True triple_ParseCmap_symbol inv_not_symbol)

subsection \<open>\<open>cmap\<close>: the character map\<close>

lemma triple_chars_reset:
  assumes "\<And>a. triple chars_ok (k a) Q"
  shows "triple P (seq (assign (\<lambda>me. me\<lparr>chars := Map.empty\<rparr>)) k) Q"
  by (rule triple_seq [where R = "\<lambda>_. chars_ok"], rule triple_assign,
      simp add: chars_ok_def, rule assms)

lemma triple_ParseCmap_chars: "triple (\<lambda>_. True) ParseCmap (\<lambda>_. chars_ok)"
  unfolding ParseCmap_def Let_def
  apply (rule triple_chars_reset | rule triple_skip | rule triple_if | rule triple_fail)+
  apply (rule triple_inv, rule inv_cmap_segments)
  apply (auto simp: chars_ok_def)
  done

lemma inv_chars_ok:
  "inv chars_ok ParseName" "inv chars_ok ParseOS2" "inv chars_ok ParsePost"
  "inv chars_ok ParseLoca"
  unfolding chars_ok_def
  by (rule inv_cmap_lift [where J = "\<lambda>s c. \<forall>k v. c k = Some v \<longrightarrow> v \<noteq> 0 \<and> k \<noteq> 0xFFFF"],
      rule inv_cmap_late)+

lemma Parse_chars_ok: "triple (\<lambda>_. True) Parse_fd (\<lambda>_. chars_ok)"
  by (rule triple_Parse_fd [where R = "\<lambda>_. True"])
     (simp_all add: inv_True triple_True triple_ParseCmap_chars inv_chars_ok,
      simp_all add: chars_ok_def)

subsection \<open>\<open>cmap\<close>: a segment without range offset\<close>

lemma glyph_index_delta:
  "glyph_index c d 0 w = (Inr (if c + d \<ge> 65536 then c + d - 65536 else c + d), w)"
  by (simp add: glyph_index_def seq_def ret_def)

lemma cmap_codepoints_delta:
  assumes "c2 \<le> 65535" and "d \<le> 65535"
  shows "\<exists>m'. cmap_codepoints c1 c2 d 0 w = (Inr (), w\<lparr>me_of := (me_of w)\<lparr>chars := m'\<rparr>\<rparr>) \<and>
     (\<forall>c. m' (int c) =
        (if c1 \<le> c \<and> c \<le> c2 \<and> c \<noteq> 0xFFFF \<and> (c + d) mod 65536 \<noteq> 0
         then Some ((c + d) mod 65536)
         else chars (me_of w) (int c)))"
proof (induction "c2 + 1 - c1" arbitrary: c1 w)
  case 0
  then have gt: "\<not> c1 \<le> c2" by simp
  then have "cmap_codepoints c1 c2 d 0 w = (Inr (), w\<lparr>me_of := (me_of w)\<lparr>chars := chars (me_of w)\<rparr>\<rparr>)"
    unfolding cmap_codepoints_unfold [of c1] by (simp add: ret_def)
  with gt show ?case by (intro exI [of _ "chars (me_of w)"]) auto
next
  case (Suc k)
  then have le: "c1 \<le> c2" and k: "k = c2 + 1 - (c1 + 1)" by simp_all
  show ?case
  proof (cases "c1 = 0xFFFF")
    case True
    with le assms have "c2 = 0xFFFF" by simp
    have "cmap_codepoints c1 c2 d 0 w = (Inr (), w\<lparr>me_of := (me_of w)\<lparr>chars := chars (me_of w)\<rparr>\<rparr>)"
      unfolding cmap_codepoints_unfold [of c1] using True le by (simp add: ret_def)
    with True \<open>c2 = 0xFFFF\<close> show ?thesis
      by (intro exI [of _ "chars (me_of w)"]) auto
  next
    case False
    define g where "g = (if c1 + d \<ge> 65536 then c1 + d - 65536 else c1 + d)"
    define w1 where "w1 = (if g > 0 then w\<lparr>me_of := (me_of w)\<lparr>chars := (chars (me_of w))(int c1 \<mapsto> g)\<rparr>\<rparr> else w)"
    have step: "cmap_codepoints c1 c2 d 0 w = cmap_codepoints (c1 + 1) c2 d 0 w1"
      unfolding cmap_codepoints_unfold [of c1] using False le
      by (simp add: seq_def glyph_index_delta g_def w1_def assign_def ret_def)
    from Suc.hyps(1) [OF k, of w1] obtain m' where
      run: "cmap_codepoints (c1 + 1) c2 d 0 w1 = (Inr (), w1\<lparr>me_of := (me_of w1)\<lparr>chars := m'\<rparr>\<rparr>)"
      and m': "\<And>c. m' (int c) =
        (if c1 + 1 \<le> c \<and> c \<le> c2 \<and> c \<noteq> 0xFFFF \<and> (c + d) mod 65536 \<noteq> 0
         then Some ((c + d) mod 65536)
         else chars (me_of w1) (int c))"
      by blast
    have w1: "w1\<lparr>me_of := (me_of w1)\<lparr>chars := m'\<rparr>\<rparr> = w\<lparr>me_of := (me_of w)\<lparr>chars := m'\<rparr>\<rparr>"
      by (simp add: w1_def)
    have g_mod: "g = (c1 + d) mod 65536"
      using le assms by (simp add: g_def mod_if le_mod_geq)
    show ?thesis
    proof (intro exI [of _ m'] conjI allI)
      show "cmap_codepoints c1 c2 d 0 w = (Inr (), w\<lparr>me_of := (me_of w)\<lparr>chars := m'\<rparr>\<rparr>)"
        using step run w1 by simp
    next
      fix c
      show "m' (int c) =
        (if c1 \<le> c \<and> c \<le> c2 \<and> c \<noteq> 0xFFFF \<and> (c + d) mod 65536 \<noteq> 0
         then Some ((c + d) mod 65536)
         else chars (me_of w) (int c))"
      proof (cases "c = c1")
        case True
        have "m' (int c1) = chars (me_of w1) (int c1)" using m' [of c1] by simp
        also have "\<dots> = (if g > 0 then Some g else chars (me_of w) (int c1))"
          by (simp add: w1_def)
        finally show ?thesis
          using True False le g_mod by auto
      next
        case neq: False
        have "chars (me_of w1) (int c) = chars (me_of w) (int c)"
          using neq by (simp add: w1_def)
        with m' [of c] neq show ?thesis by (auto simp: Suc_le_eq)
      qed
    qed
  qed
qed

subsection \<open>The parser run on the small font and on three variants of it\<close>

text \<open>
  The equations that run the parser on a concrete file: every definition of the model and
  the recursive equations of its loops.
\<close>

lemmas run_simps =
  seq_def ret_def fail_def assign_def read_into_def with_me_def ignoring_err_def Read_def Skip_def SeekAbs_def
  Seek_def FTell_def be_nat_def ReadUShort_def ReadShort_def ReadULong_def BytesToString_def
  Let_def char_of_def bit_Suc_0_iff
  directory_loop.simps hmtx_loop.simps ArrayPadUint_loop.simps cmap_records.simps
  read_ushorts.simps cmap_codepoints.simps cmap_segments.simps digits.simps
  strings_Replace.simps doExecute.simps replaceAll.simps name_records.simps loca_short.simps
  loca_long.simps CompareBytes_loop.simps
  Parse_def Parse_fd_def ParseHead_def ParseHhea_def ParseMaxp_def ParseHmtx_def
  ArrayPadUint_def ParseCmap_def index_def glyph_index_def table_Offset_def table_Length_def
  Itoa_def ReplaceAllString_def name_pattern_def PregReplace_def ParseName_def ParseOS2_def
  ParsePost_def ParseLoca_def CompareBytes_def readFontData_def new_TTFParser_def

lemma demo_font_parsed:
  "\<exists>w. Parse new_TTFParser demo_font = (Inr (), w) \<and>
     widths (me_of w) = [500, 600, 600] \<and> numberOfHMetrics (me_of w) = 2 \<and>
     numGlyphs (me_of w) = 3 \<and> postScriptName (me_of w) = ''Demo1'' \<and>
     \<not> symbol (me_of w) \<and> descender (me_of w) = - 200 \<and>
     typoDescender (me_of w) = - 250 \<and> usWinDescent (me_of w) = 300 \<and>
     chars (me_of w) 0x41 = Some 1 \<and> chars (me_of w) 0x42 = Some 2 \<and>
     chars (me_of w) 0x61 = Some 1 \<and> chars (me_of w) 0x62 = None \<and>
     chars (me_of w) 0xFFFF = None"
  by (simp add: run_simps demo_font_def)

lemma demo_font_without_hmtx_parsed:
  "\<exists>w. Parse new_TTFParser (demo_font[79 := 0x58]) = (Inr (), w) \<and>
     tables (me_of w) ''hmtx'' = None \<and> widths (me_of w) = [0, 3, 3]"
  by (simp add: run_simps demo_font_def)

lemma demo_font_no_hmetrics_parsed:
  "fst (Parse new_TTFParser (demo_font[245 := 0])) = Inl PanicIndexOutOfRange"
  by (simp add: run_simps demo_font_def)

text \<open>
  One parser object parses the small font and then the small font with the advance
  widths 501 and 601 (bytes 309 and 313).
\<close>

lemma demo_font_parsed_twice:
  "\<exists>w1 w2. Parse new_TTFParser demo_font = (Inr (), w1) \<and>
     Parse (me_of w1) (demo_font[309 := 0xF5, 313 := 0x59]) = (Inr (), w2) \<and>
     numberOfHMetrics (me_of w2) = 2 \<and> numGlyphs (me_of w2) = 3 \<and>
     widths (me_of w2) = [500, 600, 600]"
  by (simp add: run_simps demo_font_def)

lemma demo_font_one_glyph_parsed:
  "\<exists>w. Parse new_TTFParser (demo_font[251 := 1]) = (Inr (), w) \<and>
     widths (me_of w) = [500, 600] \<and> numberOfHMetrics (me_of w) = 2 \<and>
     numGlyphs (me_of w) = 1"
  by (simp add: run_simps demo_font_def)

subsection \<open>The pattern of \<open>ParseName\<close> changes nothing\<close>

text \<open>
  At every position the first alternative of the pattern, the empty one, matches. So every
  match that \<open>ReplaceAllString\<close> finds is empty, and replacing it by the empty string gives
  the subject back: \<open>PregReplace\<close> at its call in \<open>ParseName\<close> removes no character.
\<close>

lemma doExecute_name_pattern:
  "p \<le> length src \<Longrightarrow> doExecute name_pattern src p = Some (p, p)"
  by (subst doExecute.simps) (simp add: name_pattern_def)

lemma replaceAll_name_pattern:
  "lastMatchEnd \<le> searchPos \<Longrightarrow>
     replaceAll name_pattern src [] lastMatchEnd searchPos buf = buf @ drop lastMatchEnd src"
proof (induction "length src + 1 - searchPos" arbitrary: lastMatchEnd searchPos buf)
  case 0
  then show ?case by (subst replaceAll.simps) simp
next
  case (Suc k)
  then have le: "searchPos \<le> length src" and k: "k = length src + 1 - (searchPos + 1)"
    by simp_all
  have split: "take (searchPos - lastMatchEnd) (drop lastMatchEnd src) @ drop searchPos src =
      drop lastMatchEnd src"
    using Suc.prems
    by (metis append_take_drop_id drop_drop le_add_diff_inverse2)
  have "replaceAll name_pattern src [] lastMatchEnd searchPos buf =
      replaceAll name_pattern src [] searchPos (searchPos + 1)
        (buf @ take (searchPos - lastMatchEnd) (drop lastMatchEnd src))"
    using le by (subst replaceAll.simps) (auto simp: doExecute_name_pattern Let_def)
  also have "\<dots> = (buf @ take (searchPos - lastMatchEnd) (drop lastMatchEnd src)) @
      drop searchPos src"
    by (rule Suc.hyps(1) [OF k]) simp
  finally show ?case using split by simp
qed

lemma PregReplace_name_pattern: "PregReplace name_pattern [] s w = (Inr s, w)"
  by (simp add: PregReplace_def ReplaceAllString_def replaceAll_name_pattern ret_def)


section \<open>The claims\<close>

text \<open>
  C1. The claim: a font whose directory lacks a table that a parser needs, \<open>cmap\<close> or
  \<open>hmtx\<close> in particular, fails to parse with the not-found error of that tag, and no byte at
  the cursor is read as that table. \<open>ParseHmtx\<close> and \<open>ParseCmap\<close> drop the error of
  \<open>me.Seek\<close>, where the seven other table parsers return it. The small font with the tag
  of its \<open>hmtx\<close> entry changed to \<open>hmtX\<close> (byte 79) parses without error: the directory
  has no \<open>hmtx\<close>, and the widths are read where \<open>ParseMaxp\<close> left the cursor, from the
  first bytes of the \<open>cmap\<close> table (0 and 3 instead of 500 and 600).
\<close>

theorem Parse_without_hmtx_table:
  "fst (Parse new_TTFParser (demo_font[79 := 0x58])) = Inr () \<and>
   tables (me_of (snd (Parse new_TTFParser (demo_font[79 := 0x58])))) ''hmtx'' = None \<and>
   widths (me_of (snd (Parse new_TTFParser (demo_font[79 := 0x58])))) = [0, 3, 3]"
  using demo_font_without_hmtx_parsed by auto

text \<open>
  C2. The claim: when padding is needed and no width was collected (\<open>numberOfHMetrics\<close> is
  0 and less than the glyph count), \<open>ParseHmtx\<close> fails with an error and the index into
  \<open>me.widths\<close> is in range or guarded. The index \<open>me.numberOfHMetrics-1\<close> is not guarded:
  the small font with \<open>numberOfHMetrics\<close> set to 0 (byte 245) and three glyphs ends
  \<open>Parse\<close> in the run-time panic of an index out of range, which is no returned error.
\<close>

theorem Parse_without_hmetrics:
  "fst (Parse new_TTFParser (demo_font[245 := 0])) = Inl PanicIndexOutOfRange \<and>
   be_nat (take 2 (drop 244 (demo_font[245 := 0]))) = 0 \<and>
   be_nat (take 2 (drop 250 (demo_font[245 := 0]))) = 3"
  using demo_font_no_hmetrics_parsed by (simp add: demo_font_def be_nat_def)

text \<open>
  C3. The claim: the stored PostScript name is the payload without its zero bytes and
  without the characters of \<open>{space, [, ], (, ), {, }, <, >, /, %}\<close>, and nothing else is
  removed; a digit \<open>0\<close> stays. \<open>ParseName\<close> removes every occurrence of
  \<open>strconv.Itoa(0)\<close>, the one-character string of the digit \<open>0\<close>: the name record of the
  small font holds \<open>Demo10\<close> in UTF-16BE (12 bytes at byte 336), and the name stored is
  \<open>Demo1\<close>.
\<close>

theorem Parse_name_with_zero_digit:
  "BytesToString (filter (\<lambda>v. v \<noteq> 0) (take 12 (drop 336 demo_font))) = ''Demo10'' \<and>
   fst (Parse new_TTFParser demo_font) = Inr () \<and>
   postScriptName (me_of (snd (Parse new_TTFParser demo_font))) = ''Demo1''"
  using demo_font_parsed by (auto simp: demo_font_def BytesToString_def char_of_def bit_Suc_0_iff)

text \<open>
  C4, as amended. The claim said that with \<open>typoDescender\<close> other than 0 the accessor
  \<open>Descender\<close> returns the absolute value of \<open>usWinDescent\<close>. It returns
  \<open>usWinDescent\<close> with the sign of the \<open>hhea\<close> descender: negated when that descender
  is negative, as it is otherwise; with \<open>typoDescender\<close> 0 it returns the \<open>hhea\<close>
  descender.
\<close>

theorem Descender_sign:
  "Descender me =
     (if typoDescender me = 0 then descender me
      else if descender me < 0 then - int (usWinDescent me)
      else int (usWinDescent me))"
  by (simp add: Descender_def)

text \<open>
  C4, the claim as it was stated fails on the small font: it parses, its \<open>typoDescender\<close>
  is -250, its \<open>hhea\<close> descender -200 and its \<open>usWinDescent\<close> 300, and \<open>Descender\<close>
  returns -300, not 300.
\<close>

theorem Descender_negative:
  "fst (Parse new_TTFParser demo_font) = Inr () \<and>
   typoDescender (me_of (snd (Parse new_TTFParser demo_font))) \<noteq> 0 \<and>
   Descender (me_of (snd (Parse new_TTFParser demo_font))) = - 300 \<and>
   \<bar>int (usWinDescent (me_of (snd (Parse new_TTFParser demo_font))))\<bar> = 300 \<and>
   Descender (me_of (snd (Parse new_TTFParser demo_font))) \<noteq>
     \<bar>int (usWinDescent (me_of (snd (Parse new_TTFParser demo_font))))\<bar>"
  using demo_font_parsed by (auto simp: Descender_def)

text \<open>
  C5, as amended. The claim said that after a successful parse the width sequence is as
  long as the glyph count, also when \<open>numberOfHMetrics\<close> is greater. \<open>ParseHmtx\<close> pads and
  never cuts: after a successful parse by a parser object that had no widths yet, the
  sequence is as long as the greater of \<open>numberOfHMetrics\<close> and the glyph count, so as long
  as the glyph count exactly when \<open>numberOfHMetrics\<close> is not the greater.
\<close>

theorem Parse_widths_length:
  assumes "widths me = []" and "Parse me font = (Inr u, w)"
  shows "length (widths (me_of w)) = max (numberOfHMetrics (me_of w)) (numGlyphs (me_of w))"
  using tripleD [OF Parse_widths_fit, of "\<lparr>me_of = me, fd_of = \<lparr>content = font, pos = 0\<rparr>\<rparr>" u w] assms
  by (simp add: Parse_def widths_fit_def)

text \<open>
  C5, the amended statement at the small font, parsed by a new parser object: three
  widths for two metrics and three glyphs.
\<close>

theorem Parse_widths_length_witness:
  "widths new_TTFParser = [] \<and>
   fst (Parse new_TTFParser demo_font) = Inr () \<and>
   length (widths (me_of (snd (Parse new_TTFParser demo_font)))) =
     max (numberOfHMetrics (me_of (snd (Parse new_TTFParser demo_font))))
         (numGlyphs (me_of (snd (Parse new_TTFParser demo_font)))) \<and>
   length (widths (me_of (snd (Parse new_TTFParser demo_font)))) = 3"
proof -
  from demo_font_parsed obtain w where run: "Parse new_TTFParser demo_font = (Inr (), w)"
    and ws: "widths (me_of w) = [500, 600, 600]" by blast
  have fresh: "widths new_TTFParser = []" by (simp add: new_TTFParser_def)
  from Parse_widths_length [OF fresh run] run fresh ws show ?thesis by simp
qed

text \<open>
  C5, the claim as it was stated fails on the small font with its glyph count set to 1
  (byte 251): it parses, and two widths stand for one glyph.
\<close>

theorem widths_longer_than_glyph_count:
  "fst (Parse new_TTFParser (demo_font[251 := 1])) = Inr () \<and>
   numberOfHMetrics (me_of (snd (Parse new_TTFParser (demo_font[251 := 1])))) = 2 \<and>
   numGlyphs (me_of (snd (Parse new_TTFParser (demo_font[251 := 1])))) = 1 \<and>
   length (widths (me_of (snd (Parse new_TTFParser (demo_font[251 := 1]))))) = 2 \<and>
   length (widths (me_of (snd (Parse new_TTFParser (demo_font[251 := 1]))))) \<noteq>
     numGlyphs (me_of (snd (Parse new_TTFParser (demo_font[251 := 1]))))"
  using demo_font_one_glyph_parsed by auto

text \<open>
  C6. After every successful parse the flag \<open>symbol\<close> is false, and \<open>Flag\<close> returns the
  nonsymbolic value \<open>0x20\<close>, in which the symbolic bit \<open>0x4\<close> is not set: each encoding
  record resets the flag, the one assignment of \<open>true\<close> stands under
  \<open>encodingID == 1 && encodingID == 0\<close>, and a parse without an encoding record fails.
\<close>

theorem Parse_nonsymbolic:
  assumes "Parse me font = (Inr u, w)"
  shows "\<not> symbol (me_of w) \<and> Flag (me_of w) = 0x20"
  using tripleD [OF Parse_not_symbol, of "\<lparr>me_of = me, fd_of = \<lparr>content = font, pos = 0\<rparr>\<rparr>" u w] assms
  by (simp add: Parse_def Flag_def Nonsymbolic_def)

text \<open>C6 at the small font.\<close>

theorem Parse_nonsymbolic_witness:
  "fst (Parse new_TTFParser demo_font) = Inr () \<and>
   \<not> symbol (me_of (snd (Parse new_TTFParser demo_font))) \<and>
   Flag (me_of (snd (Parse new_TTFParser demo_font))) = 0x20"
proof -
  from demo_font_parsed obtain w where run: "Parse new_TTFParser demo_font = (Inr (), w)"
    by blast
  from Parse_nonsymbolic [OF run] run show ?thesis by simp
qed

text \<open>
  C7. The claim: with \<open>numberOfHMetrics\<close> at least 1 and below the glyph count, after
  \<open>ParseHmtx\<close> every width from index \<open>numberOfHMetrics\<close> on equals the one of index
  \<open>numberOfHMetrics - 1\<close>, and the widths below are the advance widths of the file in
  order. \<open>ParseHmtx\<close> appends to \<open>me.widths\<close> and nothing empties that slice, where
  \<open>Parse\<close> makes \<open>me.tables\<close> anew, \<open>ParseCmap\<close> \<open>me.chars\<close> and \<open>ParseName\<close>
  \<open>me.postScriptName\<close>. With one width, 7, held from an earlier call, two metrics (500
  and 600) and four glyphs, \<open>ParseHmtx\<close> returns without error and leaves 7, 500, 600,
  500: the width of index 0 is not the first of the file, and the width of index 2 is not
  the one of index 1. And a parser object that has parsed the small font and then parses
  it again with the advance widths 501 and 601 keeps 500, 600, 600.
\<close>

theorem ParseHmtx_on_held_widths:
  "widths (me_of hmtx_held) = [7] \<and>
   numberOfHMetrics (me_of hmtx_held) = 2 \<and> numGlyphs (me_of hmtx_held) = 4 \<and>
   be_nat (take 2 (drop 2 (content (fd_of hmtx_held)))) = 500 \<and>
   be_nat (take 2 (drop 6 (content (fd_of hmtx_held)))) = 600 \<and>
   fst (ParseHmtx hmtx_held) = Inr () \<and>
   widths (me_of (snd (ParseHmtx hmtx_held))) = [7, 500, 600, 500] \<and>
   be_nat (take 2 (drop 308 (demo_font[309 := 0xF5, 313 := 0x59]))) = 501 \<and>
   be_nat (take 2 (drop 312 (demo_font[309 := 0xF5, 313 := 0x59]))) = 601 \<and>
   fst (Parse (me_of (snd (Parse new_TTFParser demo_font)))
         (demo_font[309 := 0xF5, 313 := 0x59])) = Inr () \<and>
   widths (me_of (snd (Parse (me_of (snd (Parse new_TTFParser demo_font)))
         (demo_font[309 := 0xF5, 313 := 0x59])))) = [500, 600, 600]"
proof -
  have held: "widths (me_of hmtx_held) = [7] \<and>
     numberOfHMetrics (me_of hmtx_held) = 2 \<and> numGlyphs (me_of hmtx_held) = 4 \<and>
     be_nat (take 2 (drop 2 (content (fd_of hmtx_held)))) = 500 \<and>
     be_nat (take 2 (drop 6 (content (fd_of hmtx_held)))) = 600 \<and>
     fst (ParseHmtx hmtx_held) = Inr () \<and>
     widths (me_of (snd (ParseHmtx hmtx_held))) = [7, 500, 600, 500]"
    by (simp add: hmtx_held_def hmtx_demo_def run_simps)
  have bytes: "be_nat (take 2 (drop 308 (demo_font[309 := 0xF5, 313 := 0x59]))) = 501"
    "be_nat (take 2 (drop 312 (demo_font[309 := 0xF5, 313 := 0x59]))) = 601"
    by (simp_all add: demo_font_def be_nat_def)
  from demo_font_parsed_twice obtain w1 w2 where
    "Parse new_TTFParser demo_font = (Inr (), w1)"
    "Parse (me_of w1) (demo_font[309 := 0xF5, 313 := 0x59]) = (Inr (), w2)"
    "widths (me_of w2) = [500, 600, 600]"
    by blast
  with held bytes show ?thesis by simp
qed

text \<open>
  On a parser object that holds no widths the law of C7 is the code's: when \<open>ParseHmtx\<close>
  returns without error, with \<open>numberOfHMetrics\<close> at least 1 and below the glyph count,
  then there is one width per glyph; the width of index \<open>i\<close> below \<open>numberOfHMetrics\<close> is
  the big-endian value of the two bytes at \<open>4 * i\<close> from the start of the table
  (\<open>hmtx_start\<close>: the offset of the \<open>hmtx\<close> entry); and every width from index
  \<open>numberOfHMetrics\<close> on equals the one of index \<open>numberOfHMetrics - 1\<close>.
  \<open>numberOfHMetrics\<close> is a \<open>uint64\<close>.
\<close>

theorem ParseHmtx_padding:
  assumes "ParseHmtx w = (Inr u, w')" and "widths (me_of w) = []"
    and "1 \<le> numberOfHMetrics (me_of w)"
    and "numberOfHMetrics (me_of w) < numGlyphs (me_of w)"
    and "numberOfHMetrics (me_of w) < 2 ^ 64"
  shows "length (widths (me_of w')) = numGlyphs (me_of w) \<and>
     (\<forall>i < numberOfHMetrics (me_of w).
        widths (me_of w') ! i =
          be_nat (take 2 (drop (hmtx_start w + 4 * i) (content (fd_of w))))) \<and>
     (\<forall>i. numberOfHMetrics (me_of w) \<le> i \<and> i < numGlyphs (me_of w) \<longrightarrow>
        widths (me_of w') ! i = widths (me_of w') ! (numberOfHMetrics (me_of w) - 1))"
proof -
  let ?n = "numberOfHMetrics (me_of w)"
  have idx: "(?n + 2 ^ 64 - 1) mod 2 ^ 64 = ?n - 1"
    using assms(3,5) by (simp add: mod_if)
  show ?thesis
    using ParseHmtx_Inr(1) [OF assms(1,2), unfolded idx] assms(3,4)
    by (auto simp: advance_widths_def)
qed

text \<open>The law at two metrics, 500 and 600, for four glyphs.\<close>

theorem ParseHmtx_padding_witness:
  "ParseHmtx hmtx_demo = (Inr (), snd (ParseHmtx hmtx_demo)) \<and>
   widths (me_of hmtx_demo) = [] \<and>
   1 \<le> numberOfHMetrics (me_of hmtx_demo) \<and>
   numberOfHMetrics (me_of hmtx_demo) < numGlyphs (me_of hmtx_demo) \<and>
   numberOfHMetrics (me_of hmtx_demo) < 2 ^ 64 \<and>
   numberOfHMetrics (me_of hmtx_demo) = 2 \<and> numGlyphs (me_of hmtx_demo) = 4 \<and>
   hmtx_start hmtx_demo = 2 \<and>
   length (widths (me_of (snd (ParseHmtx hmtx_demo)))) = 4 \<and>
   widths (me_of (snd (ParseHmtx hmtx_demo))) ! 0 =
     be_nat (take 2 (drop 2 (content (fd_of hmtx_demo)))) \<and>
   widths (me_of (snd (ParseHmtx hmtx_demo))) ! 1 =
     be_nat (take 2 (drop 6 (content (fd_of hmtx_demo)))) \<and>
   widths (me_of (snd (ParseHmtx hmtx_demo))) ! 2 =
     widths (me_of (snd (ParseHmtx hmtx_demo))) ! 1 \<and>
   widths (me_of (snd (ParseHmtx hmtx_demo))) ! 3 =
     widths (me_of (snd (ParseHmtx hmtx_demo))) ! 1 \<and>
   widths (me_of (snd (ParseHmtx hmtx_demo))) = [500, 600, 600, 600]"
proof -
  have run: "ParseHmtx hmtx_demo = (Inr (), snd (ParseHmtx hmtx_demo))"
    and ws: "widths (me_of (snd (ParseHmtx hmtx_demo))) = [500, 600, 600, 600]"
    by (simp_all add: hmtx_demo_def run_simps)
  have n: "numberOfHMetrics (me_of hmtx_demo) = 2" and g: "numGlyphs (me_of hmtx_demo) = 4"
    and start: "hmtx_start hmtx_demo = 2"
    by (simp_all add: hmtx_demo_def new_TTFParser_def hmtx_start_def Seek_def SeekAbs_def)
  have hyps: "widths (me_of hmtx_demo) = []" "1 \<le> numberOfHMetrics (me_of hmtx_demo)"
    "numberOfHMetrics (me_of hmtx_demo) < numGlyphs (me_of hmtx_demo)"
    "numberOfHMetrics (me_of hmtx_demo) < 2 ^ 64"
    by (simp_all add: hmtx_demo_def new_TTFParser_def)
  have pad: "length (widths (me_of (snd (ParseHmtx hmtx_demo)))) = 4"
    "\<And>i. i < 2 \<Longrightarrow> widths (me_of (snd (ParseHmtx hmtx_demo))) ! i =
       be_nat (take 2 (drop (2 + 4 * i) (content (fd_of hmtx_demo))))"
    "\<And>i. 2 \<le> i \<Longrightarrow> i < 4 \<Longrightarrow> widths (me_of (snd (ParseHmtx hmtx_demo))) ! i =
       widths (me_of (snd (ParseHmtx hmtx_demo))) ! 1"
    using ParseHmtx_padding [OF run hyps] by (simp_all add: n g start)
  from pad(1) pad(2) [of 0] pad(2) [of 1] pad(3) [of 2] pad(3) [of 3] run ws hyps n g start
  show ?thesis by simp
qed

text \<open>
  C8. After every successful parse the character map has no entry with the value 0 and no
  entry for the codepoint \<open>0xFFFF\<close>: \<open>ParseCmap\<close> starts from an empty map, leaves a
  segment at \<open>0xFFFF\<close> before it stores, and stores glyph indices above 0 only.
\<close>

theorem Parse_chars_entries:
  assumes "Parse me font = (Inr u, w)" and "chars (me_of w) k = Some v"
  shows "v \<noteq> 0 \<and> k \<noteq> 0xFFFF"
  using tripleD [OF Parse_chars_ok, of "\<lparr>me_of = me, fd_of = \<lparr>content = font, pos = 0\<rparr>\<rparr>" u w] assms
  by (simp add: Parse_def chars_ok_def)

text \<open>C8 at the small font: \<open>A\<close> has the glyph 1, and \<open>0xFFFF\<close> has no entry.\<close>

theorem Parse_chars_entries_witness:
  "fst (Parse new_TTFParser demo_font) = Inr () \<and>
   chars (me_of (snd (Parse new_TTFParser demo_font))) 0x41 = Some 1 \<and>
   (1 :: nat) \<noteq> 0 \<and> (0x41 :: int) \<noteq> 0xFFFF \<and>
   chars (me_of (snd (Parse new_TTFParser demo_font))) 0xFFFF = None"
proof -
  from demo_font_parsed obtain w where run: "Parse new_TTFParser demo_font = (Inr (), w)"
    and c: "chars (me_of w) 0x41 = Some 1" "chars (me_of w) 0xFFFF = None" by blast
  from Parse_chars_entries [OF run c(1)] run c show ?thesis by simp
qed

text \<open>
  C9. In a segment from \<open>c1\<close> to \<open>c2\<close> with delta \<open>d\<close> and range offset 0, both
  \<open>c2\<close> and \<open>d\<close> at most 65535 as \<open>ReadUShort\<close> returns them, the glyph index of a
  codepoint \<open>c\<close> of the segment other than \<open>0xFFFF\<close> is \<open>(c + d) mod 65536\<close>; the loop
  over the segment returns without error and leaves that index in the map at \<open>c\<close>, or,
  when the index is 0, the entry that \<open>c\<close> had.
\<close>

theorem segment_delta_glyph_index:
  assumes "c1 \<le> c" and "c \<le> c2" and "c \<noteq> 0xFFFF" and "c2 \<le> 65535" and "d \<le> 65535"
  shows "glyph_index c d 0 w = (Inr ((c + d) mod 65536), w) \<and>
     (\<exists>w'. cmap_codepoints c1 c2 d 0 w = (Inr (), w') \<and>
        chars (me_of w') (int c) =
          (if (c + d) mod 65536 = 0 then chars (me_of w) (int c)
           else Some ((c + d) mod 65536)))"
proof
  show "glyph_index c d 0 w = (Inr ((c + d) mod 65536), w)"
    using assms by (simp add: glyph_index_delta mod_if le_mod_geq)
  from cmap_codepoints_delta [OF assms(4,5), of c1 w] assms(1-3)
  show "\<exists>w'. cmap_codepoints c1 c2 d 0 w = (Inr (), w') \<and>
        chars (me_of w') (int c) =
          (if (c + d) mod 65536 = 0 then chars (me_of w) (int c)
           else Some ((c + d) mod 65536))"
    by auto
qed

text \<open>C9 at the segment 65 to 70 with delta 65472: codepoint 66 has the glyph 2.\<close>

theorem segment_delta_glyph_index_witness:
  "(65 :: nat) \<le> 66 \<and> (66 :: nat) \<le> 70 \<and> (66 :: nat) \<noteq> 0xFFFF \<and> (70 :: nat) \<le> 65535 \<and>
   (65472 :: nat) \<le> 65535 \<and>
   glyph_index 66 65472 0 empty_world = (Inr 2, empty_world) \<and>
   (\<exists>w'. cmap_codepoints 65 70 65472 0 empty_world = (Inr (), w') \<and>
      chars (me_of w') 66 = Some 2)"
  using segment_delta_glyph_index [of 65 66 70 65472 empty_world] by simp

text \<open>
  C10. When the directory has a \<open>head\<close> entry, the file holds the first 16 bytes of the
  table and the four bytes at 12 are not \<open>0x5F0F3CF5\<close>, \<open>ParseHead\<close> returns the error
  of the incorrect magic number and the parser object is as it was: \<open>unitsPerEm\<close>,
  \<open>xMin\<close>, \<open>yMin\<close>, \<open>xMax\<close>, \<open>yMax\<close> and \<open>indexToLocFormat\<close> with every other field.
\<close>

theorem ParseHead_bad_magic:
  assumes "tables (me_of w) ''head'' = Some t" and "Offset t < 2 ^ 63"
    and "Offset t + 16 \<le> length (content (fd_of w))"
    and "be_nat (take 4 (drop (Offset t + 12) (content (fd_of w)))) \<noteq> 0x5F0F3CF5"
  shows "fst (ParseHead w) = Inl ERROR_INCORRECT_MAGIC_NUMBER \<and>
     me_of (snd (ParseHead w)) = me_of w"
  using assms
  by (simp add: ParseHead_def seq_def Seek_def SeekAbs_def Skip_def ReadULong_def Read_def
      ret_def fail_def Let_def)

text \<open>C10 at the magic number \<open>0x5F0F3CF4\<close>: \<open>unitsPerEm\<close> stays 7.\<close>

theorem ParseHead_bad_magic_witness:
  "tables (me_of head_demo) ''head'' = Some \<lparr>CheckSum = 0, Offset = 0, Length = 54\<rparr> \<and>
   Offset \<lparr>CheckSum = 0, Offset = 0, Length = 54\<rparr> < 2 ^ 63 \<and>
   Offset \<lparr>CheckSum = 0, Offset = 0, Length = 54\<rparr> + 16 \<le> length (content (fd_of head_demo)) \<and>
   be_nat (take 4 (drop (Offset \<lparr>CheckSum = 0, Offset = 0, Length = 54\<rparr> + 12)
     (content (fd_of head_demo)))) \<noteq> 0x5F0F3CF5 \<and>
   fst (ParseHead head_demo) = Inl ERROR_INCORRECT_MAGIC_NUMBER \<and>
   me_of (snd (ParseHead head_demo)) = me_of head_demo \<and>
   unitsPerEm (me_of (snd (ParseHead head_demo))) = 7"
proof -
  have hyps: "tables (me_of head_demo) ''head'' = Some \<lparr>CheckSum = 0, Offset = 0, Length = 54\<rparr>"
    "Offset \<lparr>CheckSum = 0, Offset = 0, Length = 54\<rparr> < 2 ^ 63"
    "Offset \<lparr>CheckSum = 0, Offset = 0, Length = 54\<rparr> + 16 \<le> length (content (fd_of head_demo))"
    "be_nat (take 4 (drop (Offset \<lparr>CheckSum = 0, Offset = 0, Length = 54\<rparr> + 12)
       (content (fd_of head_demo)))) \<noteq> 0x5F0F3CF5"
    by (simp_all add: head_demo_def be_nat_def)
  from ParseHead_bad_magic [OF hyps] hyps show ?thesis
    by (simp add: head_demo_def)
qed

end
